theory Spec2Isabelle
  imports Main "HOL-Library.Sublist" "HOL-Library.AList" "HOL-Library.Word"
begin

section \<open>Strings and POSIX paths\<close>

text \<open>
  Python strings are modelled as \<open>string\<close> (lists of bytes); the manifest keys and
  commands that reach the code below are ASCII.  The functions of \<open>os.path\<close>
  follow \<open>posixpath\<close>.
\<close>

definition startswith :: "string \<Rightarrow> string \<Rightarrow> bool" where
  "startswith s p = prefix p s"

definition endswith :: "string \<Rightarrow> string \<Rightarrow> bool" where
  "endswith s p = suffix p s"

text \<open>\<open>s.rfind(c) + 1\<close>: the index just after the last occurrence of \<open>c\<close>, and 0 when
  there is none.\<close>

definition rfind1 :: "char \<Rightarrow> string \<Rightarrow> nat" where
  "rfind1 c s = length s - length (takeWhile (\<lambda>x. x \<noteq> c) (rev s))"

definition rstrip :: "char \<Rightarrow> string \<Rightarrow> string" where
  "rstrip c s = rev (dropWhile (\<lambda>x. x = c) (rev s))"

definition path_join :: "string \<Rightarrow> string \<Rightarrow> string" where
  "path_join a b =
     (if startswith b ''/'' then b
      else if a = [] \<or> endswith a ''/'' then a @ b
      else a @ ''/'' @ b)"

definition path_split :: "string \<Rightarrow> string \<times> string" where
  "path_split p =
     (let i = rfind1 CHR ''/'' p; head = take i p; tail = drop i p
      in (if head \<noteq> [] \<and> head \<noteq> replicate (length head) CHR ''/''
          then rstrip CHR ''/'' head else head, tail))"

definition basename :: "string \<Rightarrow> string" where
  "basename p = drop (rfind1 CHR ''/'' p) p"

definition dirname :: "string \<Rightarrow> string" where
  "dirname p = fst (path_split p)"

text \<open>The slice \<open>s[:-n]\<close> for a literal \<open>n > 0\<close>, and \<open>s[:-len(t)]\<close>, which is
  \<open>s[:0]\<close>, the empty string, when \<open>t\<close> is empty.\<close>

definition drop_last :: "nat \<Rightarrow> string \<Rightarrow> string" where
  "drop_last n s = take (length s - n) s"

definition slice_to_neg_len :: "string \<Rightarrow> string \<Rightarrow> string" where
  "slice_to_neg_len s t = (if length t = 0 then [] else take (length s - length t) s)"

text \<open>\<open>s.split('.')[-1]\<close>: what follows the last dot, the whole string when there is none.\<close>

definition last_dot_part :: "string \<Rightarrow> string" where
  "last_dot_part s = drop (rfind1 CHR ''.'' s) s"

text \<open>\<open>str(n)\<close> for a non-negative integer.\<close>

definition digit_char :: "nat \<Rightarrow> char" where
  "digit_char d = char_of (48 + d)"

fun str_nat :: "nat \<Rightarrow> string" where
  "str_nat n = (if n < 10 then [digit_char n] else str_nat (n div 10) @ [digit_char (n mod 10)])"

declare str_nat.simps [simp del]

text \<open>\<open>int(s)\<close> on a string of decimal digits, used to read a seed back.\<close>

definition digit_val :: "char \<Rightarrow> nat" where
  "digit_val c = of_char c - 48"

definition nat_of_str :: "string \<Rightarrow> nat" where
  "nat_of_str s = foldl (\<lambda>acc c. 10 * acc + digit_val c) 0 s"

definition is_digit :: "char \<Rightarrow> bool" where
  "is_digit c = (48 \<le> (of_char c :: nat) \<and> (of_char c :: nat) \<le> 57)"

section \<open>YAML values, dictionaries and errors\<close>

text \<open>
  What \<open>yaml.load\<close> returns.  A Python \<open>dict\<close> is an association list in iteration
  order; assignment to a present key keeps its place, a new key goes to the end,
  \<open>del\<close> removes the entry.  Keys are strings.
\<close>

datatype yaml =
    YNone
  | YBool bool
  | YInt int
  | YStr string
  | YList "yaml list"
  | YDict "(string \<times> yaml) list"

type_synonym ydict = "(string \<times> yaml) list"

text \<open>Python truthiness, as tested by \<open>not gen\<close>.\<close>

fun truthy :: "yaml \<Rightarrow> bool" where
  "truthy YNone = False"
| "truthy (YBool b) = b"
| "truthy (YInt i) = (i \<noteq> 0)"
| "truthy (YStr s) = (s \<noteq> [])"
| "truthy (YList xs) = (xs \<noteq> [])"
| "truthy (YDict d) = (d \<noteq> [])"

text \<open>
  The message of \<open>ProblemAspect.error\<close> is logged and a \<open>GeneratorError\<close> raised; the
  model keeps which message it was, with the path it names.  The other errors are the
  Python exceptions that the code does not catch; \<open>Diverges\<close> stands for a loop that
  never ends, \<open>OutOfFuel\<close> for a recursion over the file system that the model cut off.
\<close>

datatype errmsg =
    ProblemDirNotFound string
  | GeneratorDirNotFound string
  | ManifestNotFound string
  | InvalidYAML
  | NotTopLevelDict
  | MultipleDeclarations string
  | CompileError string
  | EmptyGeneratorList string
  | UnexpectedCommandType string
  | EmptyCommand string
  | ConfigNotDict string
  | ForbiddenExtensionIn string
  | TestdataYamlNotDict string
  | EmptyKey string
  | InvalidKey string string
  | GeneratorTerminated string nat

datatype error =
    GeneratorError errmsg
  | KeyError string
  | AttributeError
  | TypeError
  | ValueError
  | IndexError
  | OSError
  | AssertionError
  | UnboundLocalError
  | Diverges
  | OutOfFuel

datatype kind = TESTCASE | TESTGROUP | TESTDATA_YAML

section \<open>Command interpolation\<close>

text \<open>
  The standard-library functions the code calls are parameters: \<open>sha512\<close> gives the
  digest of a byte string as a 512-bit word, whose value is what
  \<open>int(hashlib.sha512(b).hexdigest(), 16)\<close> computes; \<open>shlex_split\<close> is
  \<open>shlex.split\<close>, \<open>None\<close> when it raises \<open>ValueError\<close>.
\<close>

type_synonym sha512_fun = "string \<Rightarrow> 512 word"
type_synonym split_fun = "string \<Rightarrow> string list option"

definition hash_command :: "sha512_fun \<Rightarrow> string \<Rightarrow> string" where
  "hash_command sha512 command = str_nat (unat (sha512 command) mod 2 ^ 31)"

definition subst_argument :: "string \<Rightarrow> string \<Rightarrow> string \<Rightarrow> string" where
  "subst_argument path seed a =
     (if a = ''$PATH'' then path
      else if startswith a ''$SEED'' then seed
      else a)"

definition parse_command ::
  "sha512_fun \<Rightarrow> split_fun \<Rightarrow> string \<Rightarrow> string \<Rightarrow> string \<Rightarrow> error + (string \<times> string list)" where
  "parse_command sha512 shlex_split command gen_path path =
     (let seed = hash_command sha512 command
      in case shlex_split command of
           None \<Rightarrow> Inl ValueError
         | Some [] \<Rightarrow> Inl IndexError
         | Some (program_path # arguments) \<Rightarrow>
             Inr (path_join gen_path program_path, map (subst_argument path seed) arguments))"

section \<open>Manifest validation and configuration inheritance\<close>

definition alnum :: "char \<Rightarrow> bool" where
  "alnum c = (let n = (of_char c :: nat)
              in (48 \<le> n \<and> n \<le> 57) \<or> (65 \<le> n \<and> n \<le> 90) \<or> (97 \<le> n \<and> n \<le> 122))"

definition key_mid_char :: "char \<Rightarrow> bool" where
  "key_mid_char c = (alnum c \<or> c = CHR ''_'' \<or> c = CHR ''.'' \<or> c = CHR ''-'')"

text \<open>\<open>key_regex.match(key)\<close>; the final \<open>$\<close> also matches before one trailing newline.\<close>

definition key_regex_match :: "string \<Rightarrow> bool" where
  "key_regex_match key =
     (let k = (if key \<noteq> [] \<and> last key = CHR 0x0A then butlast key else key)
      in 2 \<le> length k \<and> alnum (hd k) \<and> alnum (last k) \<and> list_all key_mid_char (butlast (tl k)))"

definition as_list :: "yaml \<Rightarrow> yaml list" where
  "as_list gen = (case gen of YList xs \<Rightarrow> xs | _ \<Rightarrow> [gen])"

fun validate_commands :: "split_fun \<Rightarrow> yaml list \<Rightarrow> string \<Rightarrow> error + unit" where
  "validate_commands shlex_split [] path = Inr ()"
| "validate_commands shlex_split (command # rest) path =
     (case command of
        YStr s \<Rightarrow>
          (case shlex_split s of
             None \<Rightarrow> Inl ValueError
           | Some [] \<Rightarrow> Inl (GeneratorError (EmptyCommand path))
           | Some (t # ts) \<Rightarrow> validate_commands shlex_split rest path)
      | _ \<Rightarrow> Inl (GeneratorError (UnexpectedCommandType path)))"

definition validate_generator :: "split_fun \<Rightarrow> yaml \<Rightarrow> string \<Rightarrow> bool \<Rightarrow> error + unit" where
  "validate_generator shlex_split gen path allow_none =
     (if gen = YNone \<and> allow_none then Inr ()
      else if as_list gen = [] then Inl (GeneratorError (EmptyGeneratorList path))
      else validate_commands shlex_split (as_list gen) path)"

fun validate_extensions :: "split_fun \<Rightarrow> ydict \<Rightarrow> string \<Rightarrow> string \<Rightarrow> error + unit" where
  "validate_extensions shlex_split [] key path = Inr ()"
| "validate_extensions shlex_split ((ext, gen) # rest) key path =
     (if ext = ''in'' then Inl (GeneratorError (ForbiddenExtensionIn path))
      else if gen = YNone then validate_extensions shlex_split rest key path
      else if gen = YStr ''generated'' then validate_extensions shlex_split rest key path
      else (case validate_generator shlex_split gen
                   (path_join (path_join path ''extensions'') key) False of
              Inl e \<Rightarrow> Inl e
            | Inr u \<Rightarrow> validate_extensions shlex_split rest key path))"

fun validate_config_items :: "split_fun \<Rightarrow> ydict \<Rightarrow> string \<Rightarrow> error + unit" where
  "validate_config_items shlex_split [] path = Inr ()"
| "validate_config_items shlex_split ((key, v) # rest) path =
     (if key = ''extensions'' then
        (case v of
           YDict exts \<Rightarrow>
             (case validate_extensions shlex_split exts key path of
                Inl e \<Rightarrow> Inl e
              | Inr u \<Rightarrow> validate_config_items shlex_split rest path)
         | _ \<Rightarrow> Inl AttributeError)
      else validate_config_items shlex_split rest path)"

definition validate_config :: "split_fun \<Rightarrow> yaml \<Rightarrow> string \<Rightarrow> error + unit" where
  "validate_config shlex_split config path =
     (case config of
        YDict d \<Rightarrow> validate_config_items shlex_split d path
      | _ \<Rightarrow> Inl (GeneratorError (ConfigNotDict path)))"

text \<open>\<open>del config[key][ext]\<close> and \<open>config[key][ext] = gen\<close>.\<close>

definition del_nested :: "ydict \<Rightarrow> string \<Rightarrow> string \<Rightarrow> error + ydict" where
  "del_nested config key ext =
     (case map_of config key of
        None \<Rightarrow> Inl (KeyError key)
      | Some (YDict exts) \<Rightarrow>
          (if ext \<in> fst ` set exts
           then Inr (AList.update key (YDict (AList.delete ext exts)) config)
           else Inl (KeyError ext))
      | Some other \<Rightarrow> Inl TypeError)"

definition set_nested :: "ydict \<Rightarrow> string \<Rightarrow> string \<Rightarrow> yaml \<Rightarrow> error + ydict" where
  "set_nested config key ext gen =
     (case map_of config key of
        None \<Rightarrow> Inl (KeyError key)
      | Some (YDict exts) \<Rightarrow> Inr (AList.update key (YDict (AList.update ext gen exts)) config)
      | Some other \<Rightarrow> Inl TypeError)"

fun merge_extensions :: "ydict \<Rightarrow> string \<Rightarrow> ydict \<Rightarrow> error + ydict" where
  "merge_extensions config key [] = Inr config"
| "merge_extensions config key ((ext, gen) # rest) =
     (case (if \<not> truthy gen then del_nested config key ext
            else set_nested config key ext gen) of
        Inl e \<Rightarrow> Inl e
      | Inr config' \<Rightarrow> merge_extensions config' key rest)"

fun merge_items :: "ydict \<Rightarrow> ydict \<Rightarrow> error + ydict" where
  "merge_items config [] = Inr config"
| "merge_items config ((key, v) # rest) =
     (if key = ''extensions'' then
        (case v of
           YDict exts \<Rightarrow>
             (case merge_extensions config key exts of
                Inl e \<Rightarrow> Inl e
              | Inr config' \<Rightarrow> merge_items config' rest)
         | _ \<Rightarrow> Inl AttributeError)
      else merge_items (AList.update key v config) rest)"

definition merge_configs :: "ydict \<Rightarrow> yaml \<Rightarrow> error + ydict" where
  "merge_configs old_config new_config =
     (case new_config of
        YDict d \<Rightarrow> merge_items old_config d
      | _ \<Rightarrow> Inl AttributeError)"

definition DEFAULT_CONFIG :: ydict where
  "DEFAULT_CONFIG = [(''extensions'', YDict [])]"

definition validate_testdata_yaml :: "yaml \<Rightarrow> string \<Rightarrow> error + unit" where
  "validate_testdata_yaml testdata_yaml path =
     (case testdata_yaml of
        YDict d \<Rightarrow> Inr ()
      | _ \<Rightarrow> Inl (GeneratorError (TestdataYamlNotDict path)))"

section \<open>The manifest walk\<close>

text \<open>
  \<open>_walk_group\<close> threads a state through the handlers, which in Python are closures
  and bound methods with side effects: the set of paths seen for the pre-pass of
  \<open>__enter__\<close>, the file system and the rest of the process state for \<open>run\<close> and
  \<open>clean\<close>.  An exception ends the walk with the state it was raised in.
\<close>

type_synonym 's handler = "kind \<Rightarrow> string \<Rightarrow> yaml \<Rightarrow> ydict \<Rightarrow> 's \<Rightarrow> (error + unit) \<times> 's"
type_synonym 's post_handler = "ydict \<Rightarrow> string \<Rightarrow> ydict \<Rightarrow> 's \<Rightarrow> (error + unit) \<times> 's"

text \<open>The tail of the loop body: the handler, then the post-group handler for a
  group generator.\<close>

definition visit ::
  "'s handler \<Rightarrow> 's post_handler option \<Rightarrow> kind \<Rightarrow> string \<Rightarrow> yaml \<Rightarrow> ydict \<Rightarrow> 's
    \<Rightarrow> (error + unit) \<times> 's" where
  "visit handler post_group_handler knd path v config s =
     (case handler knd path v config s of
        (Inl e, s') \<Rightarrow> (Inl e, s')
      | (Inr u, s') \<Rightarrow>
          (case post_group_handler of
             Some post \<Rightarrow> (if knd = TESTGROUP then post [] path config s' else (Inr (), s'))
           | None \<Rightarrow> (Inr (), s')))"

fun walk_group ::
  "split_fun \<Rightarrow> 's handler \<Rightarrow> 's post_handler option \<Rightarrow> ydict \<Rightarrow> string \<Rightarrow> ydict \<Rightarrow> 's
    \<Rightarrow> (error + unit) \<times> 's"
and walk_items ::
  "split_fun \<Rightarrow> 's handler \<Rightarrow> 's post_handler option \<Rightarrow> ydict \<Rightarrow> string \<Rightarrow> ydict \<Rightarrow> 's
    \<Rightarrow> (error + unit) \<times> 's" where
  "walk_group shlex_split handler post_group_handler manifest path parent_config s =
     (let scope_config = (case map_of manifest ''config'' of None \<Rightarrow> YDict [] | Some c \<Rightarrow> c)
      in case validate_config shlex_split scope_config path of
           Inl e \<Rightarrow> (Inl e, s)
         | Inr u \<Rightarrow>
             (case merge_configs parent_config scope_config of
                Inl e \<Rightarrow> (Inl e, s)
              | Inr config \<Rightarrow>
                  (case walk_items shlex_split handler post_group_handler manifest path config s of
                     (Inl e, s') \<Rightarrow> (Inl e, s')
                   | (Inr u', s') \<Rightarrow>
                       (case post_group_handler of
                          Some post \<Rightarrow> post manifest path config s'
                        | None \<Rightarrow> (Inr (), s')))))"
| "walk_items shlex_split handler post_group_handler [] path config s = (Inr (), s)"
| "walk_items shlex_split handler post_group_handler ((key, v) # rest) path config s =
     (if key = [] then (Inl (GeneratorError (EmptyKey path)), s)
      else if key = ''config'' then
        walk_items shlex_split handler post_group_handler rest path config s
      else if \<not> key_regex_match key then (Inl (GeneratorError (InvalidKey key path)), s)
      else if key = ''testdata.yaml'' then
        (case validate_testdata_yaml v path of
           Inl e \<Rightarrow> (Inl e, s)
         | Inr u \<Rightarrow>
             (case visit handler post_group_handler TESTDATA_YAML (path_join path key) v config s of
                (Inl e, s') \<Rightarrow> (Inl e, s')
              | (Inr u', s') \<Rightarrow>
                  walk_items shlex_split handler post_group_handler rest path config s'))
      else
        (case v of
           YDict d \<Rightarrow>
             (case walk_group shlex_split handler post_group_handler d (path_join path key)
                     config s of
                (Inl e, s') \<Rightarrow> (Inl e, s')
              | (Inr u, s') \<Rightarrow>
                  walk_items shlex_split handler post_group_handler rest path config s')
         | _ \<Rightarrow>
             (case validate_generator shlex_split v (path_join path key) True of
                Inl e \<Rightarrow> (Inl e, s)
              | Inr u \<Rightarrow>
                  (case visit handler post_group_handler
                          (if endswith key ''.in'' then TESTCASE else TESTGROUP)
                          (path_join path key) v config s of
                     (Inl e, s') \<Rightarrow> (Inl e, s')
                   | (Inr u', s') \<Rightarrow>
                       walk_items shlex_split handler post_group_handler rest path config s'))))"

text \<open>The handler of the pre-pass in \<open>__enter__\<close>; its state is the set \<open>paths\<close>.\<close>

definition declare_path :: "(string set) handler" where
  "declare_path knd path gen config paths =
     (if path \<in> paths then (Inl (GeneratorError (MultipleDeclarations path)), paths)
      else (Inr (), insert path paths))"

section \<open>Extension order\<close>

text \<open>
  The first loop of \<open>_generate_extensions\<close>.  Besides the two lists it leaves the loop
  variable \<open>gen\<close> bound to the value of the last item (unbound, \<open>None\<close>, when the
  dictionary is empty); the second loop of the function reads that variable.
\<close>

fun scan_extensions ::
  "ydict \<Rightarrow> string list \<Rightarrow> string list \<Rightarrow> yaml option
    \<Rightarrow> string list \<times> string list \<times> yaml option" where
  "scan_extensions [] old_extensions new_extensions g = (old_extensions, new_extensions, g)"
| "scan_extensions ((ext, gen) # rest) old_extensions new_extensions g =
     (if gen = YStr ''generated'' then
        scan_extensions rest (old_extensions @ [ext]) new_extensions (Some gen)
      else if ext = ''ans'' then
        scan_extensions rest old_extensions (''ans'' # new_extensions) (Some gen)
      else scan_extensions rest old_extensions (new_extensions @ [ext]) (Some gen))"

definition old_extensions_of :: "ydict \<Rightarrow> string list" where
  "old_extensions_of exts = fst (scan_extensions exts [''in''] [] None)"

definition new_extensions_of :: "ydict \<Rightarrow> string list" where
  "new_extensions_of exts = fst (snd (scan_extensions exts [''in''] [] None))"

definition leftover_gen :: "ydict \<Rightarrow> yaml option" where
  "leftover_gen exts = snd (snd (scan_extensions exts [''in''] [] None))"

definition config_extensions :: "ydict \<Rightarrow> error + ydict" where
  "config_extensions config =
     (case map_of config ''extensions'' of
        None \<Rightarrow> Inl (KeyError ''extensions'')
      | Some (YDict exts) \<Rightarrow> Inr exts
      | Some other \<Rightarrow> Inl AttributeError)"

section \<open>The merge filter of a group generator\<close>

text \<open>
  The three tests of the loop body in \<open>_run_single\<close> that decide whether a file
  \<open>fname\<close> of one produced directory, whose files are \<open>files\<close>, is moved to the target.
\<close>

definition in_file_of :: "string \<Rightarrow> string" where
  "in_file_of fname = slice_to_neg_len fname (last_dot_part fname) @ ''in''"

definition adopted :: "ydict \<Rightarrow> string list \<Rightarrow> string \<Rightarrow> bool" where
  "adopted exts files fname =
     (CHR ''.'' \<in> set fname
      \<and> (last_dot_part fname = ''in''
           \<or> map_of exts (last_dot_part fname) = Some (YStr ''generated''))
      \<and> in_file_of fname \<in> set files)"

section \<open>The file system and the process state\<close>

text \<open>
  The file system is a finite table from absolute paths, as lists of names, to nodes;
  the root is the empty list and always a directory.  There are no symbolic links.
  \<open>resolve\<close> turns a path string into such a list, relative to the working directory
  when the string does not start with a slash.
\<close>

datatype node = File string | Dir

type_synonym fsys = "(string list \<times> node) list"

fun split_on :: "char \<Rightarrow> string \<Rightarrow> string list" where
  "split_on c [] = [[]]"
| "split_on c (x # xs) =
     (if x = c then [] # split_on c xs
      else (case split_on c xs of [] \<Rightarrow> [[x]] | w # ws \<Rightarrow> (x # w) # ws))"

definition norm_step :: "string list \<Rightarrow> string \<Rightarrow> string list" where
  "norm_step acc c =
     (if c = [] \<or> c = ''.'' then acc else if c = ''..'' then butlast acc else acc @ [c])"

definition resolve :: "string list \<Rightarrow> string \<Rightarrow> string list" where
  "resolve wd p = foldl norm_step (if startswith p ''/'' then [] else wd) (split_on CHR ''/'' p)"

text \<open>One call of the Program Runner, \<open>generator.run(**args)\<close>: the keyword arguments
  that the code also prints, the program and the working directory of the call.\<close>

record run_call =
  rc_program :: string
  rc_args :: "string list option"
  rc_infile :: "string option"
  rc_outfile :: "string option"
  rc_cwd :: "string list"

record world =
  fs :: fsys
  cwd :: "string list"
  fresh :: nat
  generator_cache :: "string list"
  calls :: "run_call list"

text \<open>
  The collaborators that are not code of this repository: the hash and the tokenizer
  of above, the YAML library, the compiler of the Program Runner (whether compiling the
  program at a path succeeds) and a run of a compiled program, which returns the wait
  status and may change the file system in any way.
\<close>

record collab =
  x_sha512 :: sha512_fun
  x_shlex_split :: split_fun
  x_yaml_load :: "string \<Rightarrow> yaml option"
  x_yaml_dump :: "yaml \<Rightarrow> string"
  x_compile :: "string \<Rightarrow> bool"
  x_run :: "run_call \<Rightarrow> fsys \<Rightarrow> nat \<times> fsys"

text \<open>The fields of \<open>Problem\<close> and of \<open>GeneratorManifest\<close> that the methods read.\<close>

record self =
  probdir :: string
  shortname :: string
  data_path :: string
  generator_path :: string
  manifestfile :: string
  tmpdir :: string

type_synonym 'a act = "world \<Rightarrow> (error + 'a) \<times> world"

definition ret :: "'a \<Rightarrow> 's \<Rightarrow> (error + 'a) \<times> 's" where
  "ret a s = (Inr a, s)"

definition raise :: "error \<Rightarrow> 's \<Rightarrow> (error + 'a) \<times> 's" where
  "raise e s = (Inl e, s)"

definition thn ::
  "('s \<Rightarrow> (error + 'a) \<times> 's) \<Rightarrow> ('a \<Rightarrow> 's \<Rightarrow> (error + 'b) \<times> 's) \<Rightarrow> 's \<Rightarrow> (error + 'b) \<times> 's" where
  "thn m f s = (case m s of (Inl e, s') \<Rightarrow> (Inl e, s') | (Inr a, s') \<Rightarrow> f a s')"

text \<open>\<open>try: m finally: cleanup\<close>.\<close>

definition try_finally ::
  "('s \<Rightarrow> (error + 'a) \<times> 's) \<Rightarrow> ('s \<Rightarrow> (error + unit) \<times> 's) \<Rightarrow> 's \<Rightarrow> (error + 'a) \<times> 's" where
  "try_finally m cleanup s =
     (case m s of (r, s') \<Rightarrow>
        (case cleanup s' of (Inl e, s'') \<Rightarrow> (Inl e, s'') | (Inr u, s'') \<Rightarrow> (r, s'')))"

fun for_each :: "'a list \<Rightarrow> ('a \<Rightarrow> 's \<Rightarrow> (error + unit) \<times> 's) \<Rightarrow> 's \<Rightarrow> (error + unit) \<times> 's" where
  "for_each [] body = ret ()"
| "for_each (x # xs) body = thn (body x) (\<lambda>u. for_each xs body)"

definition node_at :: "fsys \<Rightarrow> string list \<Rightarrow> node option" where
  "node_at f k = (if k = [] then Some Dir else map_of f k)"

definition stat :: "world \<Rightarrow> string \<Rightarrow> node option" where
  "stat w p = (if p = [] then None else node_at (fs w) (resolve (cwd w) p))"

definition path_exists :: "world \<Rightarrow> string \<Rightarrow> bool" where
  "path_exists w p = (stat w p \<noteq> None)"

definition isdir :: "world \<Rightarrow> string \<Rightarrow> bool" where
  "isdir w p = (stat w p = Some Dir)"

definition isfile :: "world \<Rightarrow> string \<Rightarrow> bool" where
  "isfile w p = (case stat w p of Some (File c) \<Rightarrow> True | _ \<Rightarrow> False)"

definition remove_tree :: "string list \<Rightarrow> fsys \<Rightarrow> fsys" where
  "remove_tree k f = filter (\<lambda>e. \<not> prefix k (fst e)) f"

definition rename_tree :: "string list \<Rightarrow> string list \<Rightarrow> fsys \<Rightarrow> fsys" where
  "rename_tree src dst f =
     map (\<lambda>e. if prefix src (fst e) then (dst @ drop (length src) (fst e), snd e) else e)
       (remove_tree dst f)"

definition os_mkdir :: "string \<Rightarrow> unit act" where
  "os_mkdir p w =
     (let k = resolve (cwd w) p
      in if p = [] \<or> node_at (fs w) k \<noteq> None \<or> node_at (fs w) (butlast k) \<noteq> Some Dir
         then (Inl OSError, w)
         else (Inr (), w\<lparr>fs := AList.update k Dir (fs w)\<rparr>))"

definition os_unlink :: "string \<Rightarrow> unit act" where
  "os_unlink p w =
     (case stat w p of
        Some (File c) \<Rightarrow> (Inr (), w\<lparr>fs := AList.delete (resolve (cwd w) p) (fs w)\<rparr>)
      | _ \<Rightarrow> (Inl OSError, w))"

definition shutil_rmtree :: "string \<Rightarrow> unit act" where
  "shutil_rmtree p w =
     (case stat w p of
        Some Dir \<Rightarrow> (Inr (), w\<lparr>fs := remove_tree (resolve (cwd w) p) (fs w)\<rparr>)
      | _ \<Rightarrow> (Inl OSError, w))"

definition os_listdir :: "string \<Rightarrow> (string list) act" where
  "os_listdir p w =
     (case stat w p of
        Some Dir \<Rightarrow>
          (Inr [last (fst e). e \<leftarrow> fs w, fst e \<noteq> [] \<and> butlast (fst e) = resolve (cwd w) p], w)
      | _ \<Rightarrow> (Inl OSError, w))"

definition os_chmod :: "string \<Rightarrow> unit act" where
  "os_chmod p w = (if path_exists w p then (Inr (), w) else (Inl OSError, w))"

definition shutil_move :: "string \<Rightarrow> string \<Rightarrow> unit act" where
  "shutil_move src dst w =
     (let real_dst = (if isdir w dst then path_join dst (basename (rstrip CHR ''/'' src)) else dst);
          ks = resolve (cwd w) src;
          kd = resolve (cwd w) real_dst
      in if \<not> path_exists w src \<or> real_dst = [] \<or> (isdir w dst \<and> path_exists w real_dst)
            \<or> (isdir w src \<and> isfile w real_dst)
            \<or> node_at (fs w) (butlast kd) \<noteq> Some Dir \<or> prefix ks kd
         then (Inl OSError, w)
         else (Inr (), w\<lparr>fs := rename_tree ks kd (fs w)\<rparr>))"

definition shutil_copy :: "string \<Rightarrow> string \<Rightarrow> unit act" where
  "shutil_copy src dst w =
     (case stat w src of
        Some (File c) \<Rightarrow>
          (let real_dst = (if isdir w dst then path_join dst (basename src) else dst);
               kd = resolve (cwd w) real_dst
           in if real_dst = [] \<or> isdir w real_dst \<or> node_at (fs w) (butlast kd) \<noteq> Some Dir
              then (Inl OSError, w)
              else (Inr (), w\<lparr>fs := AList.update kd (File c) (fs w)\<rparr>))
      | _ \<Rightarrow> (Inl OSError, w))"

text \<open>\<open>with open(path, 'w') as f: f.write(content)\<close>.\<close>

definition write_file :: "string \<Rightarrow> string \<Rightarrow> unit act" where
  "write_file path content w =
     (let k = resolve (cwd w) path
      in if path = [] \<or> isdir w path \<or> node_at (fs w) (butlast k) \<noteq> Some Dir
         then (Inl OSError, w)
         else (Inr (), w\<lparr>fs := AList.update k (File content) (fs w)\<rparr>))"

definition os_chdir_key :: "string list \<Rightarrow> unit act" where
  "os_chdir_key k w =
     (if node_at (fs w) k = Some Dir then (Inr (), w\<lparr>cwd := k\<rparr>) else (Inl OSError, w))"

definition os_chdir :: "string \<Rightarrow> unit act" where
  "os_chdir p w = (if p = [] then (Inl OSError, w) else os_chdir_key (resolve (cwd w) p) w)"

text \<open>
  \<open>tempfile.mkdtemp(dir=d, prefix=p)\<close> makes a directory with a name not in use; the
  model takes the name from a counter and fails if it is taken.
\<close>

definition mkdtemp :: "string \<Rightarrow> string \<Rightarrow> string act" where
  "mkdtemp dir pfx w =
     (let p = path_join dir (pfx @ replicate (Suc (fresh w)) CHR ''x'')
      in thn (os_mkdir p) (\<lambda>u. ret p) (w\<lparr>fresh := Suc (fresh w)\<rparr>))"

definition rmtree_or_unlink_if_exists :: "string \<Rightarrow> unit act" where
  "rmtree_or_unlink_if_exists path w =
     (if path_exists w path then
        (if isdir w path then shutil_rmtree path w else os_unlink path w)
      else (Inr (), w))"

text \<open>
  The first loop of \<open>ensure_directory\<close>.  \<open>os.path.split\<close> returns a prefix of the path
  as its head; when the head is no shorter, the loop has made no progress and never
  ends.
\<close>

function ensure_scan :: "bool \<Rightarrow> string \<Rightarrow> string list \<Rightarrow> world \<Rightarrow> error + string \<times> string list" where
  "ensure_scan recursive path create w =
     (if isdir w path then Inr (path, create)
      else if \<not> recursive then Inr (fst (path_split path), create @ [snd (path_split path)])
      else if length (fst (path_split path)) < length path
        then ensure_scan recursive (fst (path_split path)) (create @ [snd (path_split path)]) w
      else Inl Diverges)"
  by pat_completeness auto
termination
  by (relation "measure (\<lambda>(r, p, c, w). length p)") auto

declare ensure_scan.simps [simp del]

fun ensure_create :: "string \<Rightarrow> string list \<Rightarrow> unit act" where
  "ensure_create path [] = ret ()"
| "ensure_create path (dname # rest) =
     thn (rmtree_or_unlink_if_exists (path_join path dname))
       (\<lambda>u. thn (os_mkdir (path_join path dname))
          (\<lambda>u'. ensure_create (path_join path dname) rest))"

definition ensure_directory :: "string \<Rightarrow> bool \<Rightarrow> unit act" where
  "ensure_directory path recursive w =
     (case ensure_scan recursive path [] w of
        Inl e \<Rightarrow> (Inl e, w)
      | Inr (p, create) \<Rightarrow> ensure_create p (rev create) w)"

section \<open>Running generators\<close>

definition get_generator :: "collab \<Rightarrow> self \<Rightarrow> string \<Rightarrow> string act" where
  "get_generator X slf path w =
     (if path \<in> set (generator_cache w) then (Inr path, w)
      else thn (mkdtemp (tmpdir slf) ''generator-'')
             (\<lambda>work_dir w'.
                if x_compile X path
                then (Inr path, w'\<lparr>generator_cache := generator_cache w' @ [path]\<rparr>)
                else (Inl (GeneratorError (CompileError path)), w')) w)"

definition WEXITSTATUS :: "nat \<Rightarrow> nat" where
  "WEXITSTATUS status = (status div 256) mod 256"

definition run_generator :: "collab \<Rightarrow> run_call \<Rightarrow> nat act" where
  "run_generator X call w =
     (case x_run X call (fs w) of
        (status, f') \<Rightarrow> (Inr status, w\<lparr>fs := f', calls := calls w @ [call]\<rparr>))"

text \<open>One turn of the loop of \<open>_execute_generator\<close>; it returns the new \<open>input_path\<close>.\<close>

definition execute_command ::
  "collab \<Rightarrow> self \<Rightarrow> yaml \<Rightarrow> string \<Rightarrow> string \<Rightarrow> string \<Rightarrow> string \<Rightarrow> string option
    \<Rightarrow> (string option) act" where
  "execute_command X slf command gen_path tmp_dir gen_dir path input_path =
     (case command of
        YStr c \<Rightarrow>
          (case parse_command (x_sha512 X) (x_shlex_split X) c gen_path path of
             Inl e \<Rightarrow> raise e
           | Inr (program_path, arguments) \<Rightarrow>
               thn (get_generator X slf program_path) (\<lambda>generator w1.
                 thn (os_chdir gen_dir) (\<lambda>u w2.
                   thn (run_generator X
                          \<lparr>rc_program = generator,
                           rc_args = (if arguments = [] then None else Some arguments),
                           rc_infile = input_path,
                           rc_outfile = Some (path_join tmp_dir ''_tmp_output''),
                           rc_cwd = cwd w2\<rparr>) (\<lambda>status.
                   thn (os_chdir_key (cwd w1)) (\<lambda>u'.
                     if WEXITSTATUS status \<noteq> 0
                     then raise (GeneratorError (GeneratorTerminated c (WEXITSTATUS status)))
                     else
                       thn (os_chmod (path_join tmp_dir ''_tmp_output'')) (\<lambda>u''.
                       thn (rmtree_or_unlink_if_exists (path_join tmp_dir ''_tmp_input'')) (\<lambda>u'''.
                       thn (shutil_move (path_join tmp_dir ''_tmp_output'')
                              (path_join tmp_dir ''_tmp_input'')) (\<lambda>u''''.
                       ret (Some (path_join tmp_dir ''_tmp_input''))))))) w2) w1))
      | _ \<Rightarrow> raise AttributeError)"

fun execute_commands ::
  "collab \<Rightarrow> self \<Rightarrow> yaml list \<Rightarrow> string \<Rightarrow> string \<Rightarrow> string \<Rightarrow> string \<Rightarrow> string option
    \<Rightarrow> (string option) act" where
  "execute_commands X slf [] gen_path tmp_dir gen_dir path input_path = ret input_path"
| "execute_commands X slf (command # rest) gen_path tmp_dir gen_dir path input_path =
     thn (execute_command X slf command gen_path tmp_dir gen_dir path input_path)
       (\<lambda>ip. execute_commands X slf rest gen_path tmp_dir gen_dir path ip)"

definition execute_generator ::
  "collab \<Rightarrow> self \<Rightarrow> yaml \<Rightarrow> string \<Rightarrow> string \<Rightarrow> string \<Rightarrow> string \<Rightarrow> string option \<Rightarrow> string option
    \<Rightarrow> unit act" where
  "execute_generator X slf gen gen_path tmp_dir gen_dir path input_filename output_filename =
     thn (execute_commands X slf (as_list gen) gen_path tmp_dir gen_dir path
            (map_option (path_join gen_dir) input_filename))
       (\<lambda>input_path.
          case output_filename of
            None \<Rightarrow>
              (case input_path of
                 None \<Rightarrow> raise TypeError
               | Some ip \<Rightarrow> rmtree_or_unlink_if_exists ip)
          | Some out \<Rightarrow>
              thn (rmtree_or_unlink_if_exists (path_join gen_dir out)) (\<lambda>u.
                case input_path of
                  None \<Rightarrow> raise TypeError
                | Some ip \<Rightarrow> shutil_move ip (path_join gen_dir out)))"

section \<open>Extension generation\<close>

definition generate_extensions ::
  "collab \<Rightarrow> self \<Rightarrow> string \<Rightarrow> ydict \<Rightarrow> string option \<Rightarrow> unit act" where
  "generate_extensions X slf path config tmp_dir_arg =
     (if \<not> endswith path ''.in'' then raise AssertionError
      else case config_extensions config of
        Inl e \<Rightarrow> raise e
      | Inr exts \<Rightarrow>
          (if new_extensions_of exts = [] \<and> tmp_dir_arg = None then ret ()
           else
             thn (case tmp_dir_arg of
                    Some t \<Rightarrow> ret t
                  | None \<Rightarrow> mkdtemp (tmpdir slf) (basename path @ ''-ext-''))
               (\<lambda>tmp_dir.
                  try_finally
                    (thn (if tmp_dir_arg = None then os_mkdir (path_join tmp_dir ''gen'')
                          else ret ()) (\<lambda>u.
                     thn (if tmp_dir_arg = None then
                            for_each (old_extensions_of exts) (\<lambda>ext w.
                              if isfile w (drop_last 2 path @ ext)
                              then shutil_copy (drop_last 2 path @ ext)
                                     (path_join tmp_dir ''gen'') w
                              else (Inr (), w))
                          else ret ()) (\<lambda>u'.
                     thn (for_each (new_extensions_of exts) (\<lambda>ext.
                            case leftover_gen exts of
                              None \<Rightarrow> raise UnboundLocalError
                            | Some gen \<Rightarrow>
                                execute_generator X slf gen (probdir slf) tmp_dir
                                  (path_join tmp_dir ''gen'')
                                  (basename (drop_last 2 path @ ext))
                                  (Some (basename path))
                                  (Some (basename (drop_last 2 path @ ext))))) (\<lambda>u''.
                     if tmp_dir_arg = None then
                       thn (ensure_directory (dirname path) True) (\<lambda>u'''.
                         for_each (old_extensions_of exts @ new_extensions_of exts) (\<lambda>ext.
                           thn (rmtree_or_unlink_if_exists (drop_last 2 path @ ext)) (\<lambda>u''''.
                             shutil_move
                               (path_join (path_join tmp_dir ''gen'')
                                  (basename (drop_last 2 path @ ext)))
                               (drop_last 2 path @ ext))))
                     else ret ()))))
                    (if tmp_dir_arg = None then shutil_rmtree tmp_dir else ret ()))))"

text \<open>
  \<open>_run_post_group\<close> follows the directories on disk, which a generator may keep
  making deeper, so the recursion carries fuel.  The tests \<open>os.path.isdir(fname)\<close> and
  \<open>os.path.isfile(fname)\<close> are made on the bare name that \<open>os.listdir\<close> returned.
\<close>

fun run_post_group :: "nat \<Rightarrow> collab \<Rightarrow> self \<Rightarrow> ydict \<Rightarrow> string \<Rightarrow> ydict \<Rightarrow> unit act" where
  "run_post_group 0 X slf manifest path config = raise OutOfFuel"
| "run_post_group (Suc n) X slf manifest path config =
     thn (os_listdir path) (\<lambda>names.
       for_each names (\<lambda>fname w.
         if fname \<in> fst ` set manifest then (Inr (), w)
         else if isdir w fname then
           run_post_group n X slf [] (path_join path fname) config w
         else if isfile w fname \<and> endswith fname ''.in'' then
           generate_extensions X slf (path_join path fname) config None w
         else (Inr (), w)))"

section \<open>Materializing one unit\<close>

fun common_prefix_len :: "'a list \<Rightarrow> 'a list \<Rightarrow> nat" where
  "common_prefix_len (x # xs) (y # ys) = (if x = y then Suc (common_prefix_len xs ys) else 0)"
| "common_prefix_len xs ys = 0"

definition relpath :: "world \<Rightarrow> string \<Rightarrow> string \<Rightarrow> string" where
  "relpath w path start =
     (let s = resolve (cwd w) start; p = resolve (cwd w) path;
          i = common_prefix_len s p;
          rel_list = replicate (length s - i) ''..'' @ drop i p
      in if rel_list = [] then ''.'' else foldl path_join (hd rel_list) (tl rel_list))"

text \<open>The body of the inner loop of \<open>_run_single\<close> for one file of \<open>root\<close>.\<close>

definition move_generated :: "string \<Rightarrow> string \<Rightarrow> string \<Rightarrow> unit act" where
  "move_generated root cur_target_dir fname =
     thn (ensure_directory cur_target_dir False) (\<lambda>u.
     thn (rmtree_or_unlink_if_exists (path_join cur_target_dir fname)) (\<lambda>u'.
       shutil_move (path_join root fname) (path_join cur_target_dir fname)))"

definition merge_file :: "ydict \<Rightarrow> string \<Rightarrow> string \<Rightarrow> string list \<Rightarrow> string \<Rightarrow> unit act" where
  "merge_file config root cur_target_dir files fname =
     (if CHR ''.'' \<notin> set fname then ret ()
      else if last_dot_part fname = ''in'' then
        (if in_file_of fname \<notin> set files then ret ()
         else move_generated root cur_target_dir fname)
      else case config_extensions config of
        Inl e \<Rightarrow> raise e
      | Inr exts \<Rightarrow>
          (if map_of exts (last_dot_part fname) \<noteq> Some (YStr ''generated'') then ret ()
           else if in_file_of fname \<notin> set files then ret ()
           else move_generated root cur_target_dir fname))"

text \<open>\<open>for root, dirs, files in os.walk(gen_dir)\<close> with its body: top-down, each
  directory listed when it is reached; a directory that cannot be listed is skipped.\<close>

fun merge_walk :: "nat \<Rightarrow> ydict \<Rightarrow> string \<Rightarrow> string \<Rightarrow> string \<Rightarrow> unit act" where
  "merge_walk 0 config gen_dir target_dir root = raise OutOfFuel"
| "merge_walk (Suc n) config gen_dir target_dir root = (\<lambda>w.
     case os_listdir root w of
       (Inl e, w') \<Rightarrow> (Inr (), w')
     | (Inr names, w') \<Rightarrow>
         thn (for_each (filter (\<lambda>nm. \<not> isdir w' (path_join root nm)) names)
                (merge_file config root (path_join target_dir (relpath w' root gen_dir))
                   (filter (\<lambda>nm. \<not> isdir w' (path_join root nm)) names)))
           (\<lambda>u. for_each (filter (\<lambda>nm. isdir w' (path_join root nm)) names)
                  (\<lambda>d. merge_walk n config gen_dir target_dir (path_join root d))) w')"

definition run_single :: "collab \<Rightarrow> self \<Rightarrow> world handler" where
  "run_single X slf knd path gen config =
     thn (ensure_directory (if knd = TESTGROUP then path else dirname path) True) (\<lambda>u.
       if knd = TESTDATA_YAML then write_file path (x_yaml_dump X gen)
       else if gen = YNone then ret ()
       else
         thn (mkdtemp (tmpdir slf) (basename path @ ''-'')) (\<lambda>tmp_dir.
           try_finally
             (thn (os_mkdir (path_join tmp_dir ''gen'')) (\<lambda>u'.
              thn (execute_generator X slf gen (generator_path slf) tmp_dir
                     (path_join tmp_dir ''gen'') (basename path) None
                     (if knd = TESTCASE then Some (basename path) else None)) (\<lambda>u'' w.
                merge_walk (Suc (length (fs w))) config (path_join tmp_dir ''gen'')
                  (if knd = TESTGROUP then path else dirname path)
                  (path_join tmp_dir ''gen'') w)))
             (shutil_rmtree tmp_dir)))"

section \<open>Cleaning one unit\<close>

text \<open>\<open>try: f(path) except: self.warning(...)\<close>.\<close>

definition best_effort :: "unit act \<Rightarrow> unit act" where
  "best_effort m w = (case m w of (Inl e, w') \<Rightarrow> (Inr (), w') | (Inr u, w') \<Rightarrow> (Inr (), w'))"

definition clean_single :: "world handler" where
  "clean_single knd path gen config =
     (if knd = TESTCASE then
        (if \<not> endswith path ''.in'' then raise AssertionError
         else case config_extensions config of
           Inl e \<Rightarrow> raise e
         | Inr exts \<Rightarrow>
             for_each (path # map (\<lambda>ext. drop_last 3 path @ ''.'' @ ext) (map fst exts))
               (\<lambda>remove_path w.
                  if path_exists w remove_path then best_effort (os_unlink remove_path) w
                  else (Inr (), w)))
      else if knd = TESTDATA_YAML then
        (\<lambda>w. if gen \<noteq> YNone \<and> path_exists w path then best_effort (os_unlink path) w
              else (Inr (), w))
      else
        (\<lambda>w. if gen \<noteq> YNone \<and> path_exists w path then best_effort (shutil_rmtree path) w
              else (Inr (), w)))"

section \<open>The program\<close>

definition problem_init :: "string \<Rightarrow> self" where
  "problem_init dir =
     \<lparr>probdir = dir, shortname = basename dir, data_path = path_join dir ''data'',
      generator_path = path_join dir ''generators'',
      manifestfile = path_join (path_join dir ''generators'') ''gen.yaml'',
      tmpdir = []\<rparr>"

definition problem_enter :: "self \<Rightarrow> unit act" where
  "problem_enter problem w =
     (if \<not> isdir w (probdir problem)
        then (Inl (GeneratorError (ProblemDirNotFound (probdir problem))), w)
      else if \<not> isdir w (generator_path problem)
        then (Inl (GeneratorError (GeneratorDirNotFound (generator_path problem))), w)
      else if \<not> isfile w (manifestfile problem)
        then (Inl (GeneratorError (ManifestNotFound (manifestfile problem))), w)
      else (Inr (), w))"

text \<open>\<open>GeneratorManifest.__enter__\<close>: the temporary workspace, the empty cache, the
  manifest loaded from its file, and the pre-pass over all declared paths.\<close>

definition manifest_enter :: "collab \<Rightarrow> self \<Rightarrow> (self \<times> ydict) act" where
  "manifest_enter X problem =
     thn (mkdtemp ''/tmp'' (''gendata-'' @ shortname problem @ ''-'')) (\<lambda>td w.
       case stat w (manifestfile problem) of
         Some (File content) \<Rightarrow>
           (case x_yaml_load X content of
              None \<Rightarrow> (Inl (GeneratorError InvalidYAML), w\<lparr>generator_cache := []\<rparr>)
            | Some (YDict manifest) \<Rightarrow>
                (case walk_group (x_shlex_split X) declare_path None manifest
                        (data_path problem) DEFAULT_CONFIG {} of
                   (Inl e, paths) \<Rightarrow> (Inl e, w\<lparr>generator_cache := []\<rparr>)
                 | (Inr u, paths) \<Rightarrow>
                     (Inr (problem\<lparr>tmpdir := td\<rparr>, manifest), w\<lparr>generator_cache := []\<rparr>))
            | Some other \<Rightarrow> (Inl (GeneratorError NotTopLevelDict), w\<lparr>generator_cache := []\<rparr>))
       | _ \<Rightarrow> (Inl OSError, w\<lparr>generator_cache := []\<rparr>))"

definition manifest_exit :: "self \<Rightarrow> unit act" where
  "manifest_exit slf = shutil_rmtree (tmpdir slf)"

definition gen_run :: "collab \<Rightarrow> nat \<Rightarrow> self \<Rightarrow> ydict \<Rightarrow> unit act" where
  "gen_run X fuel slf manifest =
     walk_group (x_shlex_split X) (run_single X slf) (Some (run_post_group fuel X slf))
       manifest (data_path slf) DEFAULT_CONFIG"

definition gen_clean :: "collab \<Rightarrow> self \<Rightarrow> ydict \<Rightarrow> unit act" where
  "gen_clean X slf manifest =
     walk_group (x_shlex_split X) clean_single None manifest (data_path slf) DEFAULT_CONFIG"

datatype outcome = Exit nat | Uncaught error

text \<open>\<open>main\<close> after argument parsing; \<open>problemdir\<close> is the real path of the argument.\<close>

definition main :: "collab \<Rightarrow> nat \<Rightarrow> bool \<Rightarrow> string \<Rightarrow> world \<Rightarrow> outcome \<times> world" where
  "main X fuel clean problemdir w =
     (case thn (problem_enter (problem_init problemdir)) (\<lambda>u.
             thn (manifest_enter X (problem_init problemdir)) (\<lambda>(slf, manifest).
               try_finally
                 (if clean then gen_clean X slf manifest else gen_run X fuel slf manifest)
                 (manifest_exit slf))) w of
        (Inl (GeneratorError m), w') \<Rightarrow> (Exit 1, w')
      | (Inl e, w') \<Rightarrow> (Uncaught e, w')
      | (Inr u, w') \<Rightarrow> (Exit 0, w'))"

section \<open>Observing a run\<close>

text \<open>
  The notions the statements below are written with.  An action is \<open>quiet\<close> when it
  leaves the log of generator runs as it found it.  \<open>call_of\<close> says that a logged run is
  the run of one command: the program and the arguments are the ones \<open>_parse_command\<close>
  returns for that command, for the directory \<open>gen_path\<close> and for the value \<open>path\<close> of the
  path placeholder.  \<open>follows\<close> says that the runs \<open>cs\<close> are, one for one and in order,
  the first entries of a schedule, and all of it unless the result \<open>r\<close> is an error.
\<close>

definition quiet :: "'a act \<Rightarrow> bool" where
  "quiet m = (\<forall>w. calls (snd (m w)) = calls w)"

definition call_of :: "collab \<Rightarrow> string \<Rightarrow> string \<Rightarrow> yaml \<Rightarrow> run_call \<Rightarrow> bool" where
  "call_of X gen_path path command call =
     (case command of
        YStr c \<Rightarrow>
          (case parse_command (x_sha512 X) (x_shlex_split X) c gen_path path of
             Inr (program_path, arguments) \<Rightarrow>
               rc_program call = program_path \<and>
               rc_args call = (if arguments = [] then None else Some arguments)
           | Inl e \<Rightarrow> False)
      | _ \<Rightarrow> False)"

definition follows :: "('a \<Rightarrow> run_call \<Rightarrow> bool) \<Rightarrow> 'a list \<Rightarrow> run_call list \<Rightarrow> error + 'b \<Rightarrow> bool" where
  "follows Q sched cs r =
     (list_all2 Q (take (length cs) sched) cs \<and> (length cs = length sched \<or> isl r))"



section \<open>A small problem package\<close>

text \<open>
  The inputs of the evaluated runs below: a package \<open>/p\<close> with a manifest file, a data
  directory that holds one hand-written input \<open>1.in\<close>, and the directory \<open>/tmp\<close>.
  The tokenizer splits at blanks, which is what \<open>shlex.split\<close> does on a command
  without quotes; every program compiles; a run writes the path of the program that ran
  to its output file and exits with status 0.  The YAML library returns the given
  manifest for the manifest file.  \<open>demo_self\<close> is the manifest object of that package
  with \<open>/tmp\<close> as its temporary workspace, and \<open>demo_config\<close> a resolved config with two
  newly generated extensions, \<open>ans\<close> the second of them.
\<close>

definition demo_fs :: fsys where
  "demo_fs =
     [([''p''], Dir), ([''p'', ''generators''], Dir),
      ([''p'', ''generators'', ''gen.yaml''], File ''manifest''),
      ([''p'', ''data''], Dir), ([''p'', ''data'', ''1.in''], File ''manual''),
      ([''tmp''], Dir)]"

definition demo_world :: "string list \<Rightarrow> world" where
  "demo_world wd = \<lparr>fs = demo_fs, cwd = wd, fresh = 0, generator_cache = [], calls = []\<rparr>"

definition demo_run :: "run_call \<Rightarrow> fsys \<Rightarrow> nat \<times> fsys" where
  "demo_run call f =
     (0, case rc_outfile call of
           Some p \<Rightarrow> AList.update (resolve (rc_cwd call) p) (File (rc_program call)) f
         | None \<Rightarrow> f)"

definition demo_collab :: "yaml \<Rightarrow> collab" where
  "demo_collab manifest =
     \<lparr>x_sha512 = (\<lambda>c. 0), x_shlex_split = (\<lambda>c. Some (split_on CHR '' '' c)),
      x_yaml_load = (\<lambda>s. Some manifest), x_yaml_dump = (\<lambda>y. []),
      x_compile = (\<lambda>p. True), x_run = demo_run\<rparr>"

definition demo_self :: self where
  "demo_self = (problem_init ''/p'')\<lparr>tmpdir := ''/tmp''\<rparr>"

definition demo_exts :: ydict where
  "demo_exts = [(''png'', YStr ''viz $PATH''), (''ans'', YStr ''sol $PATH'')]"

definition demo_config :: ydict where
  "demo_config = [(''extensions'', YDict demo_exts)]"

section \<open>Rules for evaluating a run\<close>

lemmas path_defs = resolve_def norm_step_def startswith_def endswith_def suffix_def
  path_join_def basename_def dirname_def path_split_def rfind1_def rstrip_def drop_last_def

lemmas fs_defs = node_at_def stat_def path_exists_def isdir_def isfile_def remove_tree_def
  rename_tree_def os_mkdir_def os_unlink_def shutil_rmtree_def os_listdir_def os_chmod_def
  shutil_move_def shutil_copy_def write_file_def os_chdir_key_def os_chdir_def mkdtemp_def
  rmtree_or_unlink_if_exists_def ensure_directory_def

lemmas monad_defs = ret_def raise_def thn_def try_finally_def

lemmas gen_defs = generate_extensions_def execute_generator_def execute_command_def
  get_generator_def run_generator_def WEXITSTATUS_def parse_command_def subst_argument_def
  config_extensions_def old_extensions_of_def new_extensions_of_def leftover_gen_def as_list_def

lemmas demo_defs = demo_fs_def demo_world_def demo_run_def demo_collab_def demo_self_def
  problem_init_def

lemmas walk_defs = validate_config_def validate_generator_def merge_configs_def
  DEFAULT_CONFIG_def del_nested_def set_nested_def key_regex_match_def alnum_def key_mid_char_def
  visit_def validate_testdata_yaml_def

lemmas main_defs = main_def problem_enter_def manifest_enter_def manifest_exit_def gen_run_def
  gen_clean_def declare_path_def

section \<open>Seeds\<close>

lemma digit_roundtrip: "d < 10 \<Longrightarrow> digit_val (digit_char d) = d"
  by (simp add: digit_val_def digit_char_def)

lemma nat_of_str_snoc: "nat_of_str (s @ [c]) = 10 * nat_of_str s + digit_val c"
  by (simp add: nat_of_str_def)

lemma nat_of_str_str_nat: "nat_of_str (str_nat n) = n"
proof (induction n rule: str_nat.induct)
  case (1 n)
  show ?case
  proof (cases "n < 10")
    case True
    then show ?thesis by (subst str_nat.simps) (simp add: nat_of_str_def digit_roundtrip)
  next
    case False
    then have "nat_of_str (str_nat (n div 10)) = n div 10" using 1 by simp
    with False show ?thesis
      by (subst str_nat.simps) (simp add: nat_of_str_snoc digit_roundtrip)
  qed
qed

lemma str_nat_digits: "list_all is_digit (str_nat n)"
proof (induction n rule: str_nat.induct)
  case (1 n)
  have d: "\<And>d. d < 10 \<Longrightarrow> is_digit (digit_char d)"
    by (simp add: is_digit_def digit_char_def)
  show ?case
  proof (cases "n < 10")
    case True
    then show ?thesis by (subst str_nat.simps) (simp add: d)
  next
    case False
    with 1 show ?thesis by (subst str_nat.simps) (simp add: d)
  qed
qed

text \<open>
  Claim C7.  The seed of a command is the decimal string of the SHA-512 digest of the
  literal command text, read as an integer and reduced modulo \<open>2^31\<close>: read back as a
  number it is that residue, it is below \<open>2^31\<close>, and it consists of digits only.
  \<open>hash_command\<close> has no argument but the digest function and the text, so equal texts
  give equal seeds whatever ran before.
\<close>

theorem seed_is_sha512_mod_2_31:
  "nat_of_str (hash_command sha512 command) = unat (sha512 command) mod 2 ^ 31
   \<and> nat_of_str (hash_command sha512 command) < 2 ^ 31
   \<and> list_all is_digit (hash_command sha512 command)"
  by (simp add: hash_command_def nat_of_str_str_nat str_nat_digits)

section \<open>The lists of the first loop of extension generation\<close>

lemma scan_extensions_closed:
  "scan_extensions exts old new g =
     (old @ [fst e. e \<leftarrow> exts, snd e = YStr ''generated''],
      replicate (length [e \<leftarrow> exts. snd e \<noteq> YStr ''generated'' \<and> fst e = ''ans'']) ''ans''
        @ new @ [fst e. e \<leftarrow> exts, snd e \<noteq> YStr ''generated'' \<and> fst e \<noteq> ''ans''],
      if exts = [] then g else Some (snd (last exts)))"
proof (induction exts arbitrary: old new g)
  case Nil
  then show ?case by simp
next
  case (Cons a exts)
  obtain ext gen where a: "a = (ext, gen)" by (cases a)
  show ?case unfolding a
    by (simp add: Cons.IH replicate_app_Cons_same)
qed

lemma filter_key_distinct:
  "distinct (map fst xs) \<Longrightarrow> (k, v) \<in> set xs \<Longrightarrow> P v \<Longrightarrow>
     length [e \<leftarrow> xs. P (snd e) \<and> fst e = k] = 1"
proof (induction xs)
  case Nil
  then show ?case by simp
next
  case (Cons a xs)
  show ?case
  proof (cases "a = (k, v)")
    case True
    with Cons.prems have "k \<notin> fst ` set xs" by simp
    then have "[e \<leftarrow> xs. P (snd e) \<and> fst e = k] = []"
      by (auto simp: filter_empty_conv)
    with True Cons.prems show ?thesis by simp
  next
    case False
    with Cons.prems have in_xs: "(k, v) \<in> set xs" by simp
    then have "k \<in> fst ` set xs" by force
    with Cons.prems have "fst a \<noteq> k" by auto
    with Cons in_xs show ?thesis by simp
  qed
qed

section \<open>A falsy extension without an inherited entry\<close>

text \<open>
  Claim C10.  The manifest \<open>{config: {extensions: {ans: null}}}\<close> is structurally
  valid: its scope config passes \<open>_validate_config\<close>.  Merging that config over the
  default config, which has no entry for \<open>ans\<close>, raises \<open>KeyError\<close>, since the inherited
  entry is deleted without a test that it is there; the walk of the pre-pass ends with
  that exception, which is not a \<open>GeneratorError\<close>.
\<close>

theorem merge_raises_KeyError:
  "validate_config shlex_split (YDict [(''extensions'', YDict [(''ans'', YNone)])]) path = Inr ()
   \<and> merge_configs DEFAULT_CONFIG (YDict [(''extensions'', YDict [(''ans'', YNone)])])
       = Inl (KeyError ''ans'')
   \<and> walk_group shlex_split declare_path None
       [(''config'', YDict [(''extensions'', YDict [(''ans'', YNone)])])] path DEFAULT_CONFIG {}
       = (Inl (KeyError ''ans''), {})"
  by (simp add: validate_config_def merge_configs_def DEFAULT_CONFIG_def del_nested_def)

section \<open>Substitution of the seed placeholder\<close>

text \<open>
  Claim C8.  When \<open>_parse_command\<close> returns, the command was split into a program
  token and argument tokens, and the arguments returned are the tokens position by
  position, where every token that starts with \<open>$SEED\<close> has become the decimal seed
  of the literal command, whatever follows the placeholder in the token being dropped,
  and every token that neither is \<open>$PATH\<close> nor starts with \<open>$SEED\<close> is unchanged.
\<close>

theorem seed_token_replaced_whole:
  assumes "parse_command sha512 shlex_split command gen_path path = Inr (program, args)"
  shows "\<exists>p toks. shlex_split command = Some (p # toks) \<and> length args = length toks \<and>
           (\<forall>i < length toks.
              (startswith (toks ! i) ''$SEED'' \<longrightarrow> args ! i = hash_command sha512 command) \<and>
              (toks ! i \<noteq> ''$PATH'' \<and> \<not> startswith (toks ! i) ''$SEED'' \<longrightarrow> args ! i = toks ! i))"
proof -
  from assms obtain p toks where s: "shlex_split command = Some (p # toks)"
    and a: "args = map (subst_argument path (hash_command sha512 command)) toks"
    by (auto simp: parse_command_def Let_def split: option.splits list.splits)
  have "\<not> startswith ''$PATH'' ''$SEED''" by (simp add: startswith_def)
  then have "\<forall>i < length toks.
              (startswith (toks ! i) ''$SEED'' \<longrightarrow> args ! i = hash_command sha512 command) \<and>
              (toks ! i \<noteq> ''$PATH'' \<and> \<not> startswith (toks ! i) ''$SEED'' \<longrightarrow> args ! i = toks ! i)"
    unfolding a by (auto simp: subst_argument_def)
  with s a show ?thesis by simp
qed

theorem seed_token_replaced_whole_witness:
  "\<exists>p toks. (\<lambda>c. Some [''gen'', ''$SEEDxyz'', ''7'']) ''gen $SEEDxyz 7'' = Some (p # toks)
      \<and> length [hash_command (\<lambda>c. 5) ''gen $SEEDxyz 7'', ''7''] = length toks \<and>
      (\<forall>i < length toks.
         (startswith (toks ! i) ''$SEED'' \<longrightarrow>
            [hash_command (\<lambda>c. 5) ''gen $SEEDxyz 7'', ''7''] ! i
              = hash_command (\<lambda>c. 5) ''gen $SEEDxyz 7'') \<and>
         (toks ! i \<noteq> ''$PATH'' \<and> \<not> startswith (toks ! i) ''$SEED'' \<longrightarrow>
            [hash_command (\<lambda>c. 5) ''gen $SEEDxyz 7'', ''7''] ! i = toks ! i))"
proof -
  have h: "parse_command (\<lambda>c. 5) (\<lambda>c. Some [''gen'', ''$SEEDxyz'', ''7'']) ''gen $SEEDxyz 7''
             ''/g'' ''1.in''
           = Inr (''/g/gen'', [hash_command (\<lambda>c. 5) ''gen $SEEDxyz 7'', ''7''])"
    by (simp add: parse_command_def subst_argument_def startswith_def path_join_def
        endswith_def suffix_def)
  from seed_token_replaced_whole [OF h] show ?thesis .
qed

section \<open>The log of generator runs\<close>

lemma quietD: "quiet m \<Longrightarrow> m w = (r, w') \<Longrightarrow> calls w' = calls w"
  by (auto simp: quiet_def dest: spec [of _ w])

lemma quiet_ret [intro!, simp]: "quiet (ret a)"
  by (simp add: quiet_def ret_def)

lemma quiet_raise [intro!, simp]: "quiet (raise e)"
  by (simp add: quiet_def raise_def)

lemma quiet_thn [intro!]: "quiet m \<Longrightarrow> (\<And>a. quiet (f a)) \<Longrightarrow> quiet (thn m f)"
  by (auto simp: quiet_def thn_def split: prod.splits sum.splits)
     (metis snd_conv)+

lemma quiet_try_finally [intro!]: "quiet m \<Longrightarrow> quiet c \<Longrightarrow> quiet (try_finally m c)"
  by (auto simp: quiet_def try_finally_def split: prod.splits sum.splits)
     (metis snd_conv)+

lemma quiet_for_each [intro!]: "(\<And>x. quiet (body x)) \<Longrightarrow> quiet (for_each xs body)"
  by (induction xs) auto

lemma quiet_if [intro!]: "quiet m \<Longrightarrow> quiet n \<Longrightarrow> quiet (if b then m else n)"
  by simp

lemma quiet_if_fun: "quiet m \<Longrightarrow> quiet n \<Longrightarrow> quiet (\<lambda>w. if b w then m w else n w)"
  by (simp add: quiet_def)

lemma quiet_os_mkdir [intro!, simp]: "quiet (os_mkdir p)"
  by (simp add: quiet_def os_mkdir_def Let_def)

lemma quiet_os_unlink [intro!, simp]: "quiet (os_unlink p)"
  by (simp add: quiet_def os_unlink_def split: option.splits node.splits)

lemma quiet_shutil_rmtree [intro!, simp]: "quiet (shutil_rmtree p)"
  by (simp add: quiet_def shutil_rmtree_def split: option.splits node.splits)

lemma quiet_os_listdir [intro!, simp]: "quiet (os_listdir p)"
  by (simp add: quiet_def os_listdir_def split: option.splits node.splits)

lemma quiet_os_chmod [intro!, simp]: "quiet (os_chmod p)"
  by (simp add: quiet_def os_chmod_def)

lemma quiet_shutil_move [intro!, simp]: "quiet (shutil_move src dst)"
  by (simp add: quiet_def shutil_move_def Let_def)

lemma quiet_shutil_copy [intro!, simp]: "quiet (shutil_copy src dst)"
  by (simp add: quiet_def shutil_copy_def Let_def split: option.splits node.splits)

lemma quiet_write_file [intro!, simp]: "quiet (write_file p c)"
  by (simp add: quiet_def write_file_def Let_def)

lemma quiet_os_chdir_key [intro!, simp]: "quiet (os_chdir_key k)"
  by (simp add: quiet_def os_chdir_key_def)

lemma quiet_os_chdir [intro!, simp]: "quiet (os_chdir p)"
  using quiet_os_chdir_key by (simp add: quiet_def os_chdir_def)

lemma quiet_mkdtemp [intro!, simp]: "quiet (mkdtemp d pfx)"
proof -
  have "quiet (thn (os_mkdir p) (\<lambda>u. ret p))" for p :: string by auto
  then show ?thesis
    by (simp add: quiet_def mkdtemp_def Let_def)
qed

lemma quiet_rmtree_or_unlink [intro!, simp]: "quiet (rmtree_or_unlink_if_exists p)"
  using quiet_shutil_rmtree [of p] quiet_os_unlink [of p]
  by (simp add: quiet_def rmtree_or_unlink_if_exists_def)

lemma quiet_ensure_create [intro!, simp]: "quiet (ensure_create p create)"
  by (induction create arbitrary: p) auto

lemma quiet_ensure_directory [intro!, simp]: "quiet (ensure_directory p recursive)"
  using quiet_ensure_create
  by (auto simp: quiet_def ensure_directory_def split: sum.splits prod.splits)

lemma quiet_get_generator [intro!, simp]: "quiet (get_generator X slf p)"
proof -
  have "quiet (thn (mkdtemp (tmpdir slf) ''generator-'')
             (\<lambda>work_dir w'.
                if x_compile X p
                then (Inr p, w'\<lparr>generator_cache := generator_cache w' @ [p]\<rparr>)
                else (Inl (GeneratorError (CompileError p)), w')))"
    by (rule quiet_thn) (simp, simp add: quiet_def)
  then show ?thesis
    by (simp add: quiet_def get_generator_def)
qed

lemma quiet_best_effort [intro!]: "quiet m \<Longrightarrow> quiet (best_effort m)"
  by (auto simp: quiet_def best_effort_def split: prod.splits sum.splits) (metis snd_conv)+

lemma quiet_move_generated [intro!, simp]: "quiet (move_generated root target fname)"
  unfolding move_generated_def by auto

lemma quiet_merge_file [intro!, simp]: "quiet (merge_file config root target files fname)"
  unfolding merge_file_def by (auto split: sum.splits)

lemma quiet_merge_walk [intro!, simp]: "quiet (merge_walk n config gen_dir target_dir root)"
proof (induction n arbitrary: root)
  case 0
  show ?case by simp
next
  case (Suc n)
  show ?case unfolding quiet_def
  proof
    fix w
    obtain r w' where l: "os_listdir root w = (r, w')" by (cases "os_listdir root w")
    have c: "calls w' = calls w" using quietD [OF quiet_os_listdir l] .
    show "calls (snd (merge_walk (Suc n) config gen_dir target_dir root w)) = calls w"
    proof (cases r)
      case (Inl e)
      with l c show ?thesis by simp
    next
      case (Inr names)
      have "quiet (thn (for_each (filter (\<lambda>nm. \<not> isdir w' (path_join root nm)) names)
                (merge_file config root (path_join target_dir (relpath w' root gen_dir))
                   (filter (\<lambda>nm. \<not> isdir w' (path_join root nm)) names)))
           (\<lambda>u. for_each (filter (\<lambda>nm. isdir w' (path_join root nm)) names)
                  (\<lambda>d. merge_walk n config gen_dir target_dir (path_join root d))))"
        using Suc.IH by auto
      with Inr l c show ?thesis by (simp add: quiet_def)
    qed
  qed
qed

lemma thn_cases:
  assumes "thn m f w = (r, w')"
  obtains (fail) e where "m w = (Inl e, w')" "r = Inl e"
        | (ok) a w1 where "m w = (Inr a, w1)" "f a w1 = (r, w')"
  using assms by (auto simp: thn_def split: prod.splits sum.splits)

lemma try_finally_cases:
  assumes "try_finally m c w = (r, w')"
  obtains r1 w1 r2 where "m w = (r1, w1)" "c w1 = (r2, w')" "isl r \<or> r = r1"
  using assms by (auto simp: try_finally_def split: prod.splits sum.splits)

lemma follows_Nil_fail [simp]: "follows Q sched [] (Inl e)"
  by (simp add: follows_def)

lemma follows_weaken: "follows Q sched cs r \<Longrightarrow> isl r' \<or> r' = r \<Longrightarrow> follows Q sched cs r'"
  by (auto simp: follows_def)

lemma follows_full: "follows Q sched cs (Inr a) \<Longrightarrow> follows Q sched cs r"
  by (auto simp: follows_def)

lemma get_generator_result: "get_generator X slf p w = (Inr g, w1) \<Longrightarrow> g = p"
  by (auto simp: get_generator_def thn_def split: if_splits prod.splits sum.splits)

lemma execute_command_calls:
  assumes "execute_command X slf command gp tmp gd p ip w = (r, w')"
  shows "(calls w' = calls w \<and> isl r) \<or>
         (\<exists>call. calls w' = calls w @ [call] \<and> call_of X gp p command call)"
proof (cases command)
  case (YStr c)
  show ?thesis
  proof (cases "parse_command (x_sha512 X) (x_shlex_split X) c gp p")
    case (Inl e)
    with YStr assms show ?thesis by (auto simp: execute_command_def raise_def)
  next
    case (Inr pa)
    obtain prog args where pa: "pa = (prog, args)" by (cases pa)
    let ?call = "\<lambda>cw. \<lparr>rc_program = prog,
                           rc_args = (if args = [] then None else Some args),
                           rc_infile = ip,
                           rc_outfile = Some (path_join tmp ''_tmp_output''),
                           rc_cwd = cw\<rparr>"
    have co: "call_of X gp p command (?call cw)" for cw
      by (simp add: call_of_def YStr Inr pa)
    let ?tail = "\<lambda>old status.
       thn (os_chdir_key old) (\<lambda>u'.
                     if WEXITSTATUS status \<noteq> 0
                     then raise (GeneratorError (GeneratorTerminated c (WEXITSTATUS status)))
                     else
                       thn (os_chmod (path_join tmp ''_tmp_output'')) (\<lambda>u''.
                       thn (rmtree_or_unlink_if_exists (path_join tmp ''_tmp_input'')) (\<lambda>u'''.
                       thn (shutil_move (path_join tmp ''_tmp_output'')
                              (path_join tmp ''_tmp_input'')) (\<lambda>u''''.
                       ret (Some (path_join tmp ''_tmp_input''))))))"
    have qt: "quiet (?tail old status)" for old status by auto
    from assms YStr Inr pa have
      "thn (get_generator X slf prog) (\<lambda>generator w1.
                 thn (os_chdir gd) (\<lambda>u w2.
                   thn (run_generator X
                          \<lparr>rc_program = generator,
                           rc_args = (if args = [] then None else Some args),
                           rc_infile = ip,
                           rc_outfile = Some (path_join tmp ''_tmp_output''),
                           rc_cwd = cwd w2\<rparr>) (?tail (cwd w1)) w2) w1) w = (r, w')"
      by (simp add: execute_command_def)
    then show ?thesis
    proof (cases rule: thn_cases)
      case (fail e)
      then show ?thesis using quietD [OF quiet_get_generator] by auto
    next
      case (ok g w1)
      have g: "g = prog" using get_generator_result ok(1) .
      have c1: "calls w1 = calls w" using quietD [OF quiet_get_generator ok(1)] .
      from ok(2) show ?thesis
      proof (cases rule: thn_cases)
        case (fail e)
        then show ?thesis using quietD [OF quiet_os_chdir] c1 by auto
      next
        case (ok u w2)
        have c2: "calls w2 = calls w1" using quietD [OF quiet_os_chdir ok(1)] .
        from ok(2) show ?thesis
        proof (cases rule: thn_cases)
          case (fail e)
          then show ?thesis by (simp add: run_generator_def split: prod.splits)
        next
          case (ok status w3)
          from ok(1) have c3: "calls w3 = calls w2 @ [?call (cwd w2)]"
            by (auto simp: run_generator_def g split: prod.splits)
          have "calls w' = calls w3" using quietD [OF qt ok(2)] .
          with c1 c2 c3 co show ?thesis by auto
        qed
      qed
    qed
  qed
qed (use assms in \<open>auto simp: execute_command_def raise_def\<close>)

lemma execute_command_ok:
  assumes "execute_command X slf command gp tmp gd p ip w = (Inr a, w')"
  shows "\<exists>call. calls w' = calls w @ [call] \<and> call_of X gp p command call"
  using execute_command_calls [OF assms] by simp

lemma execute_commands_calls:
  "execute_commands X slf cmds gp tmp gd p ip w = (r, w') \<Longrightarrow>
     \<exists>cs. calls w' = calls w @ cs \<and> follows (call_of X gp p) cmds cs r"
proof (induction cmds arbitrary: ip w)
  case Nil
  then show ?case by (simp add: ret_def follows_def)
next
  case (Cons command rest)
  from Cons.prems have
    "thn (execute_command X slf command gp tmp gd p ip)
       (\<lambda>ip'. execute_commands X slf rest gp tmp gd p ip') w = (r, w')" by simp
  then show ?case
  proof (cases rule: thn_cases)
    case (fail e)
    from execute_command_calls [OF fail(1)] show ?thesis
    proof
      assume "calls w' = calls w \<and> isl (Inl e :: error + string option)"
      then show ?thesis using fail(2) by (intro exI [of _ "[]"]) simp
    next
      assume "\<exists>call. calls w' = calls w @ [call] \<and> call_of X gp p command call"
      then obtain call where "calls w' = calls w @ [call]" "call_of X gp p command call" by blast
      then show ?thesis using fail(2) by (intro exI [of _ "[call]"]) (simp add: follows_def)
    qed
  next
    case (ok a w1)
    from execute_command_ok [OF ok(1)] obtain call where
      c1: "calls w1 = calls w @ [call]" and co: "call_of X gp p command call" by blast
    from Cons.IH [OF ok(2)] obtain cs where
      c2: "calls w' = calls w1 @ cs" and f: "follows (call_of X gp p) rest cs r" by blast
    show ?thesis using c1 c2 co f
      by (intro exI [of _ "call # cs"]) (auto simp: follows_def)
  qed
qed

lemma execute_generator_calls:
  assumes "execute_generator X slf gen gp tmp gd p inp outp w = (r, w')"
  shows "\<exists>cs. calls w' = calls w @ cs \<and> follows (call_of X gp p) (as_list gen) cs r"
proof -
  let ?post = "\<lambda>input_path.
          case outp of
            None \<Rightarrow>
              (case input_path of
                 None \<Rightarrow> raise TypeError
               | Some ip \<Rightarrow> rmtree_or_unlink_if_exists ip)
          | Some out \<Rightarrow>
              thn (rmtree_or_unlink_if_exists (path_join gd out)) (\<lambda>u.
                case input_path of
                  None \<Rightarrow> raise TypeError
                | Some ip \<Rightarrow> shutil_move ip (path_join gd out))"
  have q: "quiet (?post input_path)" for input_path
    by (cases outp; cases input_path) auto
  from assms have "thn (execute_commands X slf (as_list gen) gp tmp gd p (map_option (path_join gd) inp))
                     ?post w = (r, w')"
    by (simp add: execute_generator_def)
  then show ?thesis
  proof (cases rule: thn_cases)
    case (fail e)
    with execute_commands_calls [OF fail(1)] show ?thesis by (auto simp: follows_def)
  next
    case (ok a w1)
    from execute_commands_calls [OF ok(1)] obtain cs where
      c: "calls w1 = calls w @ cs" and f: "follows (call_of X gp p) (as_list gen) cs (Inr a :: error + string option)"
      by blast
    have "calls w' = calls w1" using quietD [OF q ok(2)] .
    with c f show ?thesis by (auto simp: follows_def)
  qed
qed

lemma generation_loop_calls:
  "for_each exts (\<lambda>ext. execute_generator X slf gen gp tmp gd (pf ext) inp (outp ext)) w = (r, w') \<Longrightarrow>
     \<exists>cs. calls w' = calls w @ cs \<and>
       follows (\<lambda>(ext, command). call_of X gp (pf ext) command) (List.product exts (as_list gen)) cs r"
proof (induction exts arbitrary: w)
  case Nil
  then show ?case by (simp add: ret_def follows_def)
next
  case (Cons x xs)
  let ?Q = "\<lambda>(ext, command). call_of X gp (pf ext) command"
  from Cons.prems have
    "thn (execute_generator X slf gen gp tmp gd (pf x) inp (outp x))
       (\<lambda>u. for_each xs (\<lambda>ext. execute_generator X slf gen gp tmp gd (pf ext) inp (outp ext))) w
     = (r, w')" by simp
  then show ?case
  proof (cases rule: thn_cases)
    case (fail e)
    from execute_generator_calls [OF fail(1)] obtain cs where
      c: "calls w' = calls w @ cs" and
      f: "follows (call_of X gp (pf x)) (as_list gen) cs (Inl e :: error + unit)" by blast
    from f have l: "length cs \<le> length (as_list gen)"
      by (auto simp: follows_def dest: list_all2_lengthD)
    from f l have "list_all2 ?Q (take (length cs) (List.product (x # xs) (as_list gen))) cs"
      by (simp add: follows_def take_map list_all2_map1)
    with c fail(2) show ?thesis by (intro exI [of _ cs]) (simp add: follows_def)
  next
    case (ok a w1)
    from execute_generator_calls [OF ok(1)] obtain cs1 where
      c1: "calls w1 = calls w @ cs1" and
      f1: "follows (call_of X gp (pf x)) (as_list gen) cs1 (Inr a :: error + unit)" by blast
    from f1 have l: "length cs1 = length (as_list gen)"
      and a1: "list_all2 (call_of X gp (pf x)) (as_list gen) cs1"
      by (auto simp: follows_def)
    from Cons.IH [OF ok(2)] obtain cs2 where
      c2: "calls w' = calls w1 @ cs2" and
      f2: "follows ?Q (List.product xs (as_list gen)) cs2 r" by blast
    have "list_all2 ?Q (map (Pair x) (as_list gen)) cs1"
      using a1 by (simp add: list_all2_map1)
    with f2 l have "follows ?Q (List.product (x # xs) (as_list gen)) (cs1 @ cs2) r"
      by (auto simp: follows_def intro: list_all2_appendI)
    with c1 c2 show ?thesis by (intro exI [of _ "cs1 @ cs2"]) simp
  qed
qed

lemma leftover_gen_last: "leftover_gen exts = (if exts = [] then None else Some (snd (last exts)))"
  by (simp add: leftover_gen_def scan_extensions_closed)

lemma new_extensions_of_Nil [simp]: "new_extensions_of [] = []"
  by (simp add: new_extensions_of_def)

lemma quiet_copy_old [intro!, simp]:
  "quiet (\<lambda>w. if isfile w p then shutil_copy p d w else (Inr (), w))"
  using quiet_shutil_copy [of p d] by (simp add: quiet_def)

lemma generate_extensions_calls:
  assumes cfg: "config_extensions config = Inr exts"
    and run: "generate_extensions X slf path config tmp_arg w = (r, w')"
  shows "\<exists>cs. calls w' = calls w @ cs \<and>
           follows (\<lambda>(ext, command). call_of X (probdir slf) (basename (drop_last 2 path @ ext)) command)
             (List.product (new_extensions_of exts)
                (case leftover_gen exts of None \<Rightarrow> [] | Some gen \<Rightarrow> as_list gen)) cs r"
proof -
  let ?Q = "\<lambda>(ext, command). call_of X (probdir slf) (basename (drop_last 2 path @ ext)) command"
  let ?sched = "List.product (new_extensions_of exts)
                  (case leftover_gen exts of None \<Rightarrow> [] | Some gen \<Rightarrow> as_list gen)"
  have none: "\<exists>cs. calls w' = calls w @ cs \<and> follows ?Q ?sched cs r"
    if "calls w' = calls w" "isl r \<or> new_extensions_of exts = []"
    using that by (intro exI [of _ "[]"]) (auto simp: follows_def)
  show ?thesis
  proof (cases "endswith path ''.in''")
    case False
    with run show ?thesis by (intro none) (auto simp: generate_extensions_def raise_def)
  next
    case True
    show ?thesis
    proof (cases "new_extensions_of exts = [] \<and> tmp_arg = None")
      case True
      with run \<open>endswith path ''.in''\<close> cfg show ?thesis
        by (intro none) (auto simp: generate_extensions_def ret_def)
    next
      case False
      let ?loop = "\<lambda>tmp_dir. for_each (new_extensions_of exts) (\<lambda>ext.
                            case leftover_gen exts of
                              None \<Rightarrow> raise UnboundLocalError
                            | Some gen \<Rightarrow>
                                execute_generator X slf gen (probdir slf) tmp_dir
                                  (path_join tmp_dir ''gen'')
                                  (basename (drop_last 2 path @ ext))
                                  (Some (basename path))
                                  (Some (basename (drop_last 2 path @ ext))))"
      let ?A = "\<lambda>tmp_dir. if tmp_arg = None then os_mkdir (path_join tmp_dir ''gen'') else ret ()"
      let ?B = "\<lambda>tmp_dir. if tmp_arg = None then
                            for_each (old_extensions_of exts) (\<lambda>ext w.
                              if isfile w (drop_last 2 path @ ext)
                              then shutil_copy (drop_last 2 path @ ext)
                                     (path_join tmp_dir ''gen'') w
                              else (Inr (), w))
                          else ret ()"
      let ?C = "\<lambda>tmp_dir. if tmp_arg = None then
                       thn (ensure_directory (dirname path) True) (\<lambda>u'''.
                         for_each (old_extensions_of exts @ new_extensions_of exts) (\<lambda>ext.
                           thn (rmtree_or_unlink_if_exists (drop_last 2 path @ ext)) (\<lambda>u''''.
                             shutil_move
                               (path_join (path_join tmp_dir ''gen'')
                                  (basename (drop_last 2 path @ ext)))
                               (drop_last 2 path @ ext))))
                     else ret ()"
      let ?D = "\<lambda>tmp_dir. if tmp_arg = None then shutil_rmtree tmp_dir else ret ()"
      let ?T = "case tmp_arg of Some t \<Rightarrow> ret t | None \<Rightarrow> mkdtemp (tmpdir slf) (basename path @ ''-ext-'')"
      have qT: "quiet ?T" by (cases tmp_arg) auto
      have qA: "quiet (?A t)" for t by auto
      have qB: "quiet (?B t)" for t by auto
      have qC: "quiet (?C t)" for t by auto
      have qD: "quiet (?D t)" for t by auto
      have loop: "\<exists>cs. calls v' = calls v @ cs \<and> follows ?Q ?sched cs q"
        if "?loop t v = (q, v')" for t v q v'
      proof (cases "leftover_gen exts")
        case None
        then have "exts = []" by (simp add: leftover_gen_last split: if_splits)
        with that show ?thesis by (intro exI [of _ "[]"]) (simp add: ret_def follows_def)
      next
        case (Some gen)
        with that have "for_each (new_extensions_of exts) (\<lambda>ext.
             execute_generator X slf gen (probdir slf) t (path_join t ''gen'')
               (basename (drop_last 2 path @ ext)) (Some (basename path))
               (Some (basename (drop_last 2 path @ ext)))) v = (q, v')" by simp
        from generation_loop_calls [OF this] Some show ?thesis by simp
      qed
      from run True cfg False have
        "thn ?T (\<lambda>tmp_dir. try_finally
            (thn (?A tmp_dir) (\<lambda>u. thn (?B tmp_dir) (\<lambda>u'. thn (?loop tmp_dir) (\<lambda>u''. ?C tmp_dir))))
            (?D tmp_dir)) w = (r, w')"
        by (simp add: generate_extensions_def)
      then show ?thesis
      proof (cases rule: thn_cases)
        case (fail e)
        then show ?thesis using quietD [OF qT] by (intro none) auto
      next
        case (ok t w1)
        have c1: "calls w1 = calls w" using quietD [OF qT ok(1)] .
        from ok(2) obtain r1 w2 r2 where
          body: "thn (?A t) (\<lambda>u. thn (?B t) (\<lambda>u'. thn (?loop t) (\<lambda>u''. ?C t))) w1 = (r1, w2)"
          and fin: "?D t w2 = (r2, w')" and rr: "isl r \<or> r = r1"
          by (rule try_finally_cases)
        have c5: "calls w' = calls w2" using quietD [OF qD fin] .
        from body show ?thesis
        proof (cases rule: thn_cases)
          case (fail e)
          then show ?thesis using quietD [OF qA] c1 c5 rr by (intro none) auto
        next
          case (ok u w3)
          have c2: "calls w3 = calls w1" using quietD [OF qA ok(1)] .
          from ok(2) show ?thesis
          proof (cases rule: thn_cases)
            case (fail e)
            then show ?thesis using quietD [OF qB] c1 c2 c5 rr by (intro none) auto
          next
            case (ok u' w4)
            have c3: "calls w4 = calls w3" using quietD [OF qB ok(1)] .
            from ok(2) show ?thesis
            proof (cases rule: thn_cases)
              case (fail e)
              from loop [OF fail(1)] obtain cs where
                "calls w2 = calls w4 @ cs" "follows ?Q ?sched cs (Inl e :: error + unit)" by blast
              with fail(2) rr c1 c2 c3 c5 show ?thesis
                by (intro exI [of _ cs]) (auto simp: follows_def)
            next
              case (ok u'' w5)
              from loop [OF ok(1)] obtain cs where
                "calls w5 = calls w4 @ cs" "follows ?Q ?sched cs (Inr u'' :: error + unit)" by blast
              moreover have "calls w2 = calls w5" using quietD [OF qC ok(2)] .
              ultimately show ?thesis using c1 c2 c3 c5
                by (intro exI [of _ cs]) (auto simp: follows_def)
            qed
          qed
        qed
      qed
    qed
  qed
qed

lemma quiet_merge_walk_fs [intro!, simp]:
  "quiet (\<lambda>w. merge_walk (f w) config gen_dir target_dir root w)"
  using quiet_merge_walk by (simp add: quiet_def)

lemma run_single_calls:
  assumes run: "run_single X slf knd path gen config w = (r, w')"
  shows "\<exists>cs. calls w' = calls w @ cs \<and>
           list_all2 (call_of X (generator_path slf) (basename path)) (take (length cs) (as_list gen)) cs \<and>
           (length cs = length (as_list gen) \<or> isl r \<or> knd = TESTDATA_YAML \<or> gen = YNone)"
proof -
  have none: ?thesis if "calls w' = calls w" "isl r \<or> knd = TESTDATA_YAML \<or> gen = YNone"
    using that by (intro exI [of _ "[]"]) auto
  let ?rest = "\<lambda>u. if knd = TESTDATA_YAML then write_file path (x_yaml_dump X gen)
       else if gen = YNone then ret ()
       else
         thn (mkdtemp (tmpdir slf) (basename path @ ''-'')) (\<lambda>tmp_dir.
           try_finally
             (thn (os_mkdir (path_join tmp_dir ''gen'')) (\<lambda>u'.
              thn (execute_generator X slf gen (generator_path slf) tmp_dir
                     (path_join tmp_dir ''gen'') (basename path) None
                     (if knd = TESTCASE then Some (basename path) else None)) (\<lambda>u'' w.
                merge_walk (Suc (length (fs w))) config (path_join tmp_dir ''gen'')
                  (if knd = TESTGROUP then path else dirname path)
                  (path_join tmp_dir ''gen'') w)))
             (shutil_rmtree tmp_dir))"
  from run have "thn (ensure_directory (if knd = TESTGROUP then path else dirname path) True) ?rest w
                 = (r, w')"
    by (simp add: run_single_def)
  then show ?thesis
  proof (cases rule: thn_cases)
    case (fail e)
    then show ?thesis using quietD [OF quiet_ensure_directory] by (intro none) auto
  next
    case (ok u w1)
    have c1: "calls w1 = calls w" using quietD [OF quiet_ensure_directory ok(1)] .
    show ?thesis
    proof (cases "knd = TESTDATA_YAML \<or> gen = YNone")
      case True
      have "quiet (?rest u)" using True by auto
      from quietD [OF this ok(2)] c1 True show ?thesis by (intro none) auto
    next
      case False
      with ok(2) have "thn (mkdtemp (tmpdir slf) (basename path @ ''-'')) (\<lambda>tmp_dir.
           try_finally
             (thn (os_mkdir (path_join tmp_dir ''gen'')) (\<lambda>u'.
              thn (execute_generator X slf gen (generator_path slf) tmp_dir
                     (path_join tmp_dir ''gen'') (basename path) None
                     (if knd = TESTCASE then Some (basename path) else None)) (\<lambda>u'' w.
                merge_walk (Suc (length (fs w))) config (path_join tmp_dir ''gen'')
                  (if knd = TESTGROUP then path else dirname path)
                  (path_join tmp_dir ''gen'') w)))
             (shutil_rmtree tmp_dir)) w1 = (r, w')" by simp
      then show ?thesis
      proof (cases rule: thn_cases)
        case (fail e)
        then show ?thesis using quietD [OF quiet_mkdtemp] c1 by (intro none) auto
      next
        case (ok t w2)
        have c2: "calls w2 = calls w1" using quietD [OF quiet_mkdtemp ok(1)] .
        from ok(2) obtain r1 w3 r2 where
          body: "thn (os_mkdir (path_join t ''gen'')) (\<lambda>u'.
              thn (execute_generator X slf gen (generator_path slf) t
                     (path_join t ''gen'') (basename path) None
                     (if knd = TESTCASE then Some (basename path) else None)) (\<lambda>u'' w.
                merge_walk (Suc (length (fs w))) config (path_join t ''gen'')
                  (if knd = TESTGROUP then path else dirname path)
                  (path_join t ''gen'') w)) w2 = (r1, w3)"
          and fin: "shutil_rmtree t w3 = (r2, w')" and rr: "isl r \<or> r = r1"
          by (rule try_finally_cases)
        have c5: "calls w' = calls w3" using quietD [OF quiet_shutil_rmtree fin] .
        from body show ?thesis
        proof (cases rule: thn_cases)
          case (fail e)
          then show ?thesis using quietD [OF quiet_os_mkdir] c1 c2 c5 rr by (intro none) auto
        next
          case (ok u' w4)
          have c3: "calls w4 = calls w2" using quietD [OF quiet_os_mkdir ok(1)] .
          from ok(2) show ?thesis
          proof (cases rule: thn_cases)
            case (fail e)
            from execute_generator_calls [OF fail(1)] obtain cs where
              "calls w3 = calls w4 @ cs"
              "follows (call_of X (generator_path slf) (basename path)) (as_list gen) cs (Inl e :: error + unit)"
              by blast
            with fail(2) rr c1 c2 c3 c5 show ?thesis
              by (intro exI [of _ cs]) (auto simp: follows_def)
          next
            case (ok u'' w5)
            from execute_generator_calls [OF ok(1)] obtain cs where
              "calls w5 = calls w4 @ cs"
              "follows (call_of X (generator_path slf) (basename path)) (as_list gen) cs (Inr u'' :: error + unit)"
              by blast
            moreover have "calls w3 = calls w5" using quietD [OF quiet_merge_walk ok(2)] .
            ultimately show ?thesis using c1 c2 c3 c5
              by (intro exI [of _ cs]) (auto simp: follows_def)
          qed
        qed
      qed
    qed
  qed
qed

section \<open>Order of extension generation\<close>

lemma new_extensions_ans_first:
  assumes "distinct (map fst exts)" and "(''ans'', g) \<in> set exts" and "g \<noteq> YStr ''generated''"
  shows "new_extensions_of exts =
           ''ans'' # [fst e. e \<leftarrow> exts, snd e \<noteq> YStr ''generated'' \<and> fst e \<noteq> ''ans'']"
proof -
  have "length [e \<leftarrow> exts. snd e \<noteq> YStr ''generated'' \<and> fst e = ''ans''] = 1"
    using filter_key_distinct [OF assms(1) assms(2), of "\<lambda>v. v \<noteq> YStr ''generated''"] assms(3)
    by simp
  then show ?thesis
    by (simp add: new_extensions_of_def scan_extensions_closed)
qed

lemma schedule_split:
  assumes "list_all2 Q (take (length cs) (map (Pair a) chain @ rest)) cs"
  shows "list_all2 (\<lambda>command. Q (a, command)) (take (length (take (length chain) cs)) chain)
           (take (length chain) cs)
         \<and> list_all2 Q (take (length (drop (length chain) cs)) rest) (drop (length chain) cs)
         \<and> (drop (length chain) cs = [] \<or> length (take (length chain) cs) = length chain)"
proof -
  let ?n = "length chain"
  from assms have "list_all2 Q (take ?n (take (length cs) (map (Pair a) chain @ rest))) (take ?n cs)"
    by (rule list_all2_takeI)
  moreover have "take ?n (take (length cs) (map (Pair a) chain @ rest))
                   = map (Pair a) (take (min ?n (length cs)) chain)"
    by (simp add: take_map min_def)
  ultimately have "list_all2 Q (map (Pair a) (take (min ?n (length cs)) chain)) (take ?n cs)"
    by simp
  then have 1: "list_all2 (\<lambda>command. Q (a, command)) (take (length (take ?n cs)) chain) (take ?n cs)"
    by (simp add: list_all2_map1 min.commute)
  from assms have "list_all2 Q (drop ?n (take (length cs) (map (Pair a) chain @ rest))) (drop ?n cs)"
    by (rule list_all2_dropI)
  moreover have "drop ?n (take (length cs) (map (Pair a) chain @ rest))
                   = take (length (drop ?n cs)) rest"
    by (cases "length chain \<le> length cs") (simp_all add: drop_take min_def)
  ultimately have 2: "list_all2 Q (take (length (drop ?n cs)) rest) (drop ?n cs)"
    by simp
  show ?thesis using 1 2 by auto
qed

text \<open>
  Claim C6.  Let the extensions of a resolved config (a dictionary, so with distinct
  keys) map \<open>ans\<close> to something other than \<open>"generated"\<close>, so that \<open>ans\<close> is newly
  generated.  Then the list that the generation loop of \<open>_generate_extensions\<close> goes
  through starts with \<open>ans\<close>, followed by the other newly generated extensions in the
  order of the dictionary.  And in every run of \<open>_generate_extensions\<close> the generator
  runs it makes are first the runs that produce the \<open>ans\<close> file, one per command of the
  chain and in its order, each with the name of the \<open>ans\<close> file as the value of the
  path placeholder, and after them the runs for the other extensions, extension by
  extension in that order.  A run for another extension is made only when all the runs
  for \<open>ans\<close> have been made, and a run of the function that ends without an error has
  made every run of the schedule.  The chain that is run, for \<open>ans\<close> as for the
  others, is the one of the last item of the dictionary, \<open>snd (last exts)\<close>: the loop
  reads the variable \<open>gen\<close> that the first loop left behind.
\<close>

theorem ans_generated_first:
  assumes "config_extensions config = Inr exts"
    and "distinct (map fst exts)"
    and "(''ans'', g) \<in> set exts"
    and "g \<noteq> YStr ''generated''"
    and "generate_extensions X slf path config tmp_dir w = (r, w')"
  shows "new_extensions_of exts =
           ''ans'' # [fst e. e \<leftarrow> exts, snd e \<noteq> YStr ''generated'' \<and> fst e \<noteq> ''ans'']
         \<and> (\<exists>cs_ans cs_rest.
              calls w' = calls w @ cs_ans @ cs_rest
              \<and> list_all2 (call_of X (probdir slf) (basename (drop_last 2 path @ ''ans'')))
                  (take (length cs_ans) (as_list (snd (last exts)))) cs_ans
              \<and> list_all2
                  (\<lambda>(ext, command). call_of X (probdir slf) (basename (drop_last 2 path @ ext)) command)
                  (take (length cs_rest)
                     (List.product
                        [fst e. e \<leftarrow> exts, snd e \<noteq> YStr ''generated'' \<and> fst e \<noteq> ''ans'']
                        (as_list (snd (last exts)))))
                  cs_rest
              \<and> (cs_rest = [] \<or> length cs_ans = length (as_list (snd (last exts))))
              \<and> (isl r \<or>
                   length cs_ans = length (as_list (snd (last exts))) \<and>
                   length cs_rest =
                     length (List.product
                        [fst e. e \<leftarrow> exts, snd e \<noteq> YStr ''generated'' \<and> fst e \<noteq> ''ans'']
                        (as_list (snd (last exts))))))"
proof -
  let ?others = "[fst e. e \<leftarrow> exts, snd e \<noteq> YStr ''generated'' \<and> fst e \<noteq> ''ans'']"
  let ?chain = "as_list (snd (last exts))"
  let ?Q = "\<lambda>(ext, command). call_of X (probdir slf) (basename (drop_last 2 path @ ext)) command"
  have new: "new_extensions_of exts = ''ans'' # ?others"
    using assms(2-4) by (rule new_extensions_ans_first)
  from assms(3) have ne: "exts \<noteq> []" by auto
  from generate_extensions_calls [OF assms(1) assms(5)] obtain cs where
    c: "calls w' = calls w @ cs" and
    f: "follows ?Q (List.product (''ans'' # ?others) ?chain) cs r"
    by (auto simp: new leftover_gen_last ne)
  from f have a: "list_all2 ?Q (take (length cs) (map (Pair ''ans'') ?chain @ List.product ?others ?chain)) cs"
    and full: "length cs = length ?chain + length (List.product ?others ?chain) \<or> isl r"
    by (simp_all add: follows_def)
  note s = schedule_split [OF a]
  have "calls w' = calls w @ take (length ?chain) cs @ drop (length ?chain) cs"
    using c by simp
  moreover have "isl r \<or>
       length (take (length ?chain) cs) = length ?chain \<and>
       length (drop (length ?chain) cs) = length (List.product ?others ?chain)"
    using full by auto
  ultimately show ?thesis using new s
    by (intro conjI exI [of _ "take (length ?chain) cs"] exI [of _ "drop (length ?chain) cs"])
       (simp_all del: length_product)
qed

theorem ans_generated_first_witness:
  "new_extensions_of demo_exts =
           ''ans'' # [fst e. e \<leftarrow> demo_exts, snd e \<noteq> YStr ''generated'' \<and> fst e \<noteq> ''ans'']
         \<and> (\<exists>cs_ans cs_rest.
              calls (snd (generate_extensions (demo_collab YNone) demo_self ''/p/data/1.in''
                            demo_config None (demo_world [''p''])))
                = calls (demo_world [''p'']) @ cs_ans @ cs_rest
              \<and> list_all2 (call_of (demo_collab YNone) (probdir demo_self)
                             (basename (drop_last 2 ''/p/data/1.in'' @ ''ans'')))
                  (take (length cs_ans) (as_list (snd (last demo_exts)))) cs_ans
              \<and> list_all2
                  (\<lambda>(ext, command). call_of (demo_collab YNone) (probdir demo_self)
                                       (basename (drop_last 2 ''/p/data/1.in'' @ ext)) command)
                  (take (length cs_rest)
                     (List.product
                        [fst e. e \<leftarrow> demo_exts, snd e \<noteq> YStr ''generated'' \<and> fst e \<noteq> ''ans'']
                        (as_list (snd (last demo_exts)))))
                  cs_rest
              \<and> (cs_rest = [] \<or> length cs_ans = length (as_list (snd (last demo_exts))))
              \<and> (isl (fst (generate_extensions (demo_collab YNone) demo_self ''/p/data/1.in''
                            demo_config None (demo_world [''p'']))) \<or>
                   length cs_ans = length (as_list (snd (last demo_exts))) \<and>
                   length cs_rest =
                     length (List.product
                        [fst e. e \<leftarrow> demo_exts, snd e \<noteq> YStr ''generated'' \<and> fst e \<noteq> ''ans'']
                        (as_list (snd (last demo_exts))))))"
proof -
  have h1: "config_extensions demo_config = Inr demo_exts"
    by (simp add: config_extensions_def demo_config_def)
  have h2: "distinct (map fst demo_exts)"
    by (simp add: demo_exts_def)
  have h3: "(''ans'', YStr ''sol $PATH'') \<in> set demo_exts"
    by (simp add: demo_exts_def)
  have h4: "YStr ''sol $PATH'' \<noteq> YStr ''generated''"
    by simp
  have h5: "generate_extensions (demo_collab YNone) demo_self ''/p/data/1.in'' demo_config None
              (demo_world [''p''])
            = (fst (generate_extensions (demo_collab YNone) demo_self ''/p/data/1.in'' demo_config None
                      (demo_world [''p''])),
               snd (generate_extensions (demo_collab YNone) demo_self ''/p/data/1.in'' demo_config None
                      (demo_world [''p''])))"
    by simp
  show ?thesis by (rule ans_generated_first [OF h1 h2 h3 h4 h5])
qed

section \<open>The value of the path placeholder\<close>

lemma call_of_args:
  assumes "call_of X gp p command call"
  shows "\<exists>c prog toks args. command = YStr c \<and> x_shlex_split X c = Some (prog # toks) \<and>
           rc_program call = path_join gp prog \<and>
           rc_args call = (if args = [] then None else Some args) \<and>
           length args = length toks \<and>
           (\<forall>i < length toks. toks ! i = ''$PATH'' \<longrightarrow> args ! i = p)"
proof -
  from assms obtain c where c: "command = YStr c"
    by (cases command) (simp_all add: call_of_def)
  with assms obtain prog toks where s: "x_shlex_split X c = Some (prog # toks)"
    and p: "rc_program call = path_join gp prog"
    and a: "rc_args call =
              (if map (subst_argument p (hash_command (x_sha512 X) c)) toks = [] then None
               else Some (map (subst_argument p (hash_command (x_sha512 X) c)) toks))"
    by (auto simp: call_of_def parse_command_def Let_def split: option.splits list.splits)
  show ?thesis
    using c s p a
    by (intro exI [of _ c] exI [of _ prog] exI [of _ toks]
          exI [of _ "map (subst_argument p (hash_command (x_sha512 X) c)) toks"])
       (simp add: subst_argument_def)
qed

text \<open>
  Claim C9, as amended.  In every run of \<open>_run_single\<close> on a unit, the generator runs
  it makes are, in order, runs of the commands of the unit's generator, each with the
  program looked up under the generator directory and with arguments in which every
  token equal to \<open>$PATH\<close> has become \<open>os.path.basename(path)\<close>: the last component of
  the unit's target path, with its extension.  A run that ends without an error, on a
  unit that has a generator, has made one run per command.  The claim as it stands, that
  the token becomes the target path in relative form with the extension removed, fails:
  for the test case \<open>data/sub/2.in\<close> the argument is \<open>2.in\<close>, neither \<open>sub/2\<close> nor \<open>2\<close>.
\<close>

theorem path_placeholder_is_basename:
  assumes "run_single X slf knd path gen config w = (r, w')"
  shows "\<exists>cs. calls w' = calls w @ cs \<and>
           list_all2
             (\<lambda>command call. \<exists>c prog toks args.
                command = YStr c \<and> x_shlex_split X c = Some (prog # toks) \<and>
                rc_program call = path_join (generator_path slf) prog \<and>
                rc_args call = (if args = [] then None else Some args) \<and>
                length args = length toks \<and>
                (\<forall>i < length toks. toks ! i = ''$PATH'' \<longrightarrow> args ! i = basename path))
             (take (length cs) (as_list gen)) cs \<and>
           (length cs = length (as_list gen) \<or> isl r \<or> knd = TESTDATA_YAML \<or> gen = YNone)"
proof -
  from run_single_calls [OF assms] obtain cs where
    c: "calls w' = calls w @ cs" and
    a: "list_all2 (call_of X (generator_path slf) (basename path)) (take (length cs) (as_list gen)) cs" and
    l: "length cs = length (as_list gen) \<or> isl r \<or> knd = TESTDATA_YAML \<or> gen = YNone"
    by blast
  from a have "list_all2
             (\<lambda>command call. \<exists>c prog toks args.
                command = YStr c \<and> x_shlex_split X c = Some (prog # toks) \<and>
                rc_program call = path_join (generator_path slf) prog \<and>
                rc_args call = (if args = [] then None else Some args) \<and>
                length args = length toks \<and>
                (\<forall>i < length toks. toks ! i = ''$PATH'' \<longrightarrow> args ! i = basename path))
             (take (length cs) (as_list gen)) cs"
    by (rule list_all2_mono) (rule call_of_args)
  with c l show ?thesis by blast
qed

lemma demo_unit_run:
  "run_single (demo_collab YNone) demo_self TESTCASE ''/p/data/sub/2.in'' (YStr ''gen $PATH'')
     DEFAULT_CONFIG (demo_world [''p'']) =
     (Inr (),
      \<lparr>fs = [([''p''], Dir), ([''p'', ''generators''], Dir),
             ([''p'', ''generators'', ''gen.yaml''], File ''manifest''),
             ([''p'', ''data''], Dir), ([''p'', ''data'', ''1.in''], File ''manual''),
             ([''tmp''], Dir), ([''p'', ''data'', ''sub''], Dir),
             ([''tmp'', ''generator-xx''], Dir),
             ([''p'', ''data'', ''sub'', ''2.in''], File ''/p/generators/gen'')],
       cwd = [''p''], fresh = Suc (Suc 0), generator_cache = [''/p/generators/gen''],
       calls = [\<lparr>rc_program = ''/p/generators/gen'', rc_args = Some [''2.in''],
                  rc_infile = None,
                  rc_outfile = Some ''/tmp/2.in-x/_tmp_output'',
                  rc_cwd = [''tmp'', ''2.in-x'', ''gen'']\<rparr>]\<rparr>)"
  by (simp add: demo_defs run_single_def gen_defs DEFAULT_CONFIG_def merge_file_def move_generated_def
      in_file_of_def last_dot_part_def slice_to_neg_len_def relpath_def
      path_defs fs_defs monad_defs ensure_scan.simps)

theorem path_placeholder_keeps_extension:
  "map rc_args (calls (snd (run_single (demo_collab YNone) demo_self TESTCASE ''/p/data/sub/2.in''
       (YStr ''gen $PATH'') DEFAULT_CONFIG (demo_world [''p''])))) = [Some [''2.in'']]
   \<and> [Some [''2.in'']] \<noteq> [Some [''sub/2'']]
   \<and> [Some [''2.in'']] \<noteq> [Some [''2'']]"
  by (simp add: demo_unit_run)

theorem path_placeholder_is_basename_witness:
  "\<exists>cs. calls (snd (run_single (demo_collab YNone) demo_self TESTCASE ''/p/data/sub/2.in''
                      (YStr ''gen $PATH'') DEFAULT_CONFIG (demo_world [''p''])))
          = calls (demo_world [''p'']) @ cs \<and>
           list_all2
             (\<lambda>command call. \<exists>c prog toks args.
                command = YStr c \<and> x_shlex_split (demo_collab YNone) c = Some (prog # toks) \<and>
                rc_program call = path_join (generator_path demo_self) prog \<and>
                rc_args call = (if args = [] then None else Some args) \<and>
                length args = length toks \<and>
                (\<forall>i < length toks. toks ! i = ''$PATH'' \<longrightarrow> args ! i = basename ''/p/data/sub/2.in''))
             (take (length cs) (as_list (YStr ''gen $PATH''))) cs \<and>
           (length cs = length (as_list (YStr ''gen $PATH'')) \<or>
            isl (fst (run_single (demo_collab YNone) demo_self TESTCASE ''/p/data/sub/2.in''
                      (YStr ''gen $PATH'') DEFAULT_CONFIG (demo_world [''p''])))
            \<or> TESTCASE = TESTDATA_YAML \<or> YStr ''gen $PATH'' = YNone)"
proof -
  have h: "run_single (demo_collab YNone) demo_self TESTCASE ''/p/data/sub/2.in''
             (YStr ''gen $PATH'') DEFAULT_CONFIG (demo_world [''p''])
           = (fst (run_single (demo_collab YNone) demo_self TESTCASE ''/p/data/sub/2.in''
                     (YStr ''gen $PATH'') DEFAULT_CONFIG (demo_world [''p''])),
              snd (run_single (demo_collab YNone) demo_self TESTCASE ''/p/data/sub/2.in''
                     (YStr ''gen $PATH'') DEFAULT_CONFIG (demo_world [''p''])))"
    by simp
  show ?thesis by (rule path_placeholder_is_basename [OF h])
qed

section \<open>The merge filter and names that end in a dot\<close>

lemma merge_file_adopted:
  assumes "config_extensions config = Inr exts"
  shows "merge_file config root target files fname =
           (if adopted exts files fname then move_generated root target fname else ret ())"
  using assms by (auto simp: merge_file_def adopted_def)

lemma rfind1_le: "rfind1 c s \<le> length s"
  by (simp add: rfind1_def)

lemma in_file_of_nonempty_extension:
  assumes "last_dot_part fname \<noteq> []"
  shows "in_file_of fname = take (rfind1 CHR ''.'' fname) fname @ ''in''"
  using assms rfind1_le [of "CHR ''.''" fname]
  by (simp add: in_file_of_def slice_to_neg_len_def last_dot_part_def)

text \<open>
  Claim C4.  A file \<open>a.\<close> produced by a group generator, with the empty extension
  configured \<open>"generated"\<close> and \<open>a.in\<close> produced beside it, is not moved to the target
  directory.  The name looked for is \<open>fname[:-len(ext)] + 'in'\<close>, which is \<open>in\<close> when
  the extension is empty, where the comment in the code and the claim ask for the input
  file that belongs to it, \<open>a.in\<close>; conversely the file is moved when a file named
  \<open>in\<close> was produced.  For an extension that is not empty the name looked for is the
  name up to and including its last dot, followed by \<open>in\<close>, and of the files \<open>1.in\<close>, \<open>1.ans\<close>, \<open>2.in\<close>,
  \<open>stray.txt\<close> with \<open>ans\<close> configured \<open>"generated"\<close> the ones moved are \<open>1.in\<close>,
  \<open>1.ans\<close> and \<open>2.in\<close>.
\<close>

theorem merge_drops_name_ending_in_dot:
  "merge_file [(''extensions'', YDict [([], YStr ''generated'')])] root target
      [''a.'', ''a.in''] ''a.'' = ret ()
   \<and> in_file_of ''a.'' = ''in''
   \<and> adopted [([], YStr ''generated'')] [''a.'', ''a.in''] ''a.'' = False
   \<and> adopted [([], YStr ''generated'')] [''a.'', ''in''] ''a.'' = True
   \<and> filter (adopted [(''ans'', YStr ''generated'')] [''1.in'', ''1.ans'', ''2.in'', ''stray.txt''])
        [''1.in'', ''1.ans'', ''2.in'', ''stray.txt''] = [''1.in'', ''1.ans'', ''2.in'']"
  by (simp add: merge_file_def config_extensions_def adopted_def in_file_of_def
      slice_to_neg_len_def last_dot_part_def rfind1_def)

section \<open>Cleaning a hand-written test case\<close>

text \<open>
  Claim C1.  For the manifest \<open>{1.in: null}\<close>, a test case written by hand, and a data
  directory that holds \<open>1.in\<close>, \<open>main\<close> with \<open>--clean\<close> ends with exit status 0 and
  has removed the file \<open>data/1.in\<close>: the \<open>TESTCASE\<close> branch of \<open>_clean_single\<close> does
  not test \<open>gen is not None\<close>, as its two other branches do.  Without \<open>--clean\<close> the
  same package is left as it was, since \<open>_run_single\<close> returns at \<open>gen is None\<close>.
\<close>

theorem clean_removes_manual_input:
  "main (demo_collab (YDict [(''1.in'', YNone)])) 0 True ''/p'' (demo_world [''p'']) =
     (Exit 0,
      \<lparr>fs = [([''p''], Dir), ([''p'', ''generators''], Dir),
             ([''p'', ''generators'', ''gen.yaml''], File ''manifest''),
             ([''p'', ''data''], Dir), ([''tmp''], Dir)],
       cwd = [''p''], fresh = Suc 0, generator_cache = [], calls = []\<rparr>)
   \<and> main (demo_collab (YDict [(''1.in'', YNone)])) (Suc (Suc 0)) False ''/p'' (demo_world [''p'']) =
     (Exit 0,
      \<lparr>fs = [([''p''], Dir), ([''p'', ''generators''], Dir),
             ([''p'', ''generators'', ''gen.yaml''], File ''manifest''),
             ([''p'', ''data''], Dir), ([''p'', ''data'', ''1.in''], File ''manual''),
             ([''tmp''], Dir)],
       cwd = [''p''], fresh = Suc 0, generator_cache = [], calls = []\<rparr>)"
  by (simp add: demo_defs main_defs walk_defs clean_single_def best_effort_def run_single_def
      config_extensions_def path_defs fs_defs monad_defs ensure_scan.simps)

section \<open>The scan after a directory scope\<close>

text \<open>
  Claim C3.  The package has the hand-written \<open>data/1.in\<close>, which the manifest does
  not declare, and a config under which \<open>ans\<close> is newly generated.  Run from the
  directory \<open>/p\<close>, \<open>main\<close> ends with exit status 0, without a generator run and without
  \<open>1.ans\<close>: \<open>_run_post_group\<close> tests \<open>os.path.isfile(fname)\<close> on the bare name that
  \<open>os.listdir(path)\<close> returned, which is resolved against the working directory and
  not against \<open>path\<close>.  Run from \<open>/p/data\<close>, where the bare name happens to resolve to
  the file, the same call generates \<open>1.ans\<close>.
\<close>

theorem scan_depends_on_working_directory:
  "main (demo_collab (YDict [(''config'', YDict [(''extensions'', YDict [(''ans'', YStr ''sol'')])])]))
     (Suc (Suc 0)) False ''/p'' (demo_world [''p'']) =
     (Exit 0,
      \<lparr>fs = [([''p''], Dir), ([''p'', ''generators''], Dir),
             ([''p'', ''generators'', ''gen.yaml''], File ''manifest''),
             ([''p'', ''data''], Dir), ([''p'', ''data'', ''1.in''], File ''manual''),
             ([''tmp''], Dir)],
       cwd = [''p''], fresh = Suc 0, generator_cache = [], calls = []\<rparr>)
   \<and> main (demo_collab (YDict [(''config'', YDict [(''extensions'', YDict [(''ans'', YStr ''sol'')])])]))
     (Suc (Suc 0)) False ''/p'' (demo_world [''p'', ''data'']) =
     (Exit 0,
      \<lparr>fs = [([''p''], Dir), ([''p'', ''generators''], Dir),
             ([''p'', ''generators'', ''gen.yaml''], File ''manifest''),
             ([''p'', ''data''], Dir), ([''tmp''], Dir),
             ([''p'', ''data'', ''1.in''], File ''manual''),
             ([''p'', ''data'', ''1.ans''], File ''/p/sol'')],
       cwd = [''p'', ''data''], fresh = Suc (Suc (Suc 0)), generator_cache = [''/p/sol''],
       calls = [\<lparr>rc_program = ''/p/sol'', rc_args = None,
                  rc_infile = Some ''/tmp/gendata-p-x/1.in-ext-xx/gen/1.in'',
                  rc_outfile = Some ''/tmp/gendata-p-x/1.in-ext-xx/_tmp_output'',
                  rc_cwd = [''tmp'', ''gendata-p-x'', ''1.in-ext-xx'', ''gen'']\<rparr>]\<rparr>)"
  by (simp add: demo_defs main_defs walk_defs run_single_def gen_defs
      path_defs fs_defs monad_defs ensure_scan.simps)

section \<open>The chain that extension generation runs\<close>

lemma demo_extension_run:
  "generate_extensions (demo_collab YNone) demo_self ''/p/data/1.in'' demo_config None
     (demo_world [''p'']) =
     (Inr (),
      \<lparr>fs = [([''p''], Dir), ([''p'', ''generators''], Dir),
             ([''p'', ''generators'', ''gen.yaml''], File ''manifest''),
             ([''p'', ''data''], Dir), ([''tmp''], Dir),
             ([''p'', ''data'', ''1.in''], File ''manual''),
             ([''tmp'', ''generator-xx''], Dir),
             ([''p'', ''data'', ''1.ans''], File ''/p/sol''),
             ([''p'', ''data'', ''1.png''], File ''/p/sol'')],
       cwd = [''p''], fresh = Suc (Suc 0), generator_cache = [''/p/sol''],
       calls = [\<lparr>rc_program = ''/p/sol'', rc_args = Some [''1.ans''],
                  rc_infile = Some ''/tmp/1.in-ext-x/gen/1.in'',
                  rc_outfile = Some ''/tmp/1.in-ext-x/_tmp_output'',
                  rc_cwd = [''tmp'', ''1.in-ext-x'', ''gen'']\<rparr>,
                \<lparr>rc_program = ''/p/sol'', rc_args = Some [''1.png''],
                  rc_infile = Some ''/tmp/1.in-ext-x/gen/1.in'',
                  rc_outfile = Some ''/tmp/1.in-ext-x/_tmp_output'',
                  rc_cwd = [''tmp'', ''1.in-ext-x'', ''gen'']\<rparr>]\<rparr>)"
  by (simp add: demo_defs demo_exts_def demo_config_def gen_defs path_defs fs_defs monad_defs
      ensure_scan.simps)

text \<open>
  Claim C2.  With the extensions \<open>{png: viz $PATH, ans: sol $PATH}\<close>, extension
  generation for \<open>data/1.in\<close> runs the program \<open>sol\<close> twice, once for \<open>1.ans\<close> and once
  for \<open>1.png\<close>, and never \<open>viz\<close>: \<open>1.png\<close> is written by the chain configured for
  \<open>ans\<close>.  The loop over the new extensions passes \<open>gen\<close>, the variable of the loop
  before it, which holds the chain of the last item of the dictionary, in place of the
  chain of the extension at hand.
\<close>

theorem last_chain_runs_for_every_extension:
  "map rc_program (calls (snd (generate_extensions (demo_collab YNone) demo_self ''/p/data/1.in''
       demo_config None (demo_world [''p''])))) = [''/p/sol'', ''/p/sol'']
   \<and> map rc_args (calls (snd (generate_extensions (demo_collab YNone) demo_self ''/p/data/1.in''
       demo_config None (demo_world [''p''])))) = [Some [''1.ans''], Some [''1.png'']]
   \<and> map_of (fs (snd (generate_extensions (demo_collab YNone) demo_self ''/p/data/1.in''
       demo_config None (demo_world [''p''])))) [''p'', ''data'', ''1.png''] = Some (File ''/p/sol'')
   \<and> fst (generate_extensions (demo_collab YNone) demo_self ''/p/data/1.in''
       demo_config None (demo_world [''p''])) = Inr ()"
  by (simp add: demo_extension_run)

section \<open>Paths declared twice\<close>

lemma visit_None [simp]: "visit handler None knd p v config s = handler knd p v config s"
  by (simp add: visit_def split: prod.splits sum.splits)

















end
